theory Spec2Isabelle
  imports Main "HOL-Library.AList"
begin

section \<open>Data model\<close>

text \<open>
  The session core of the application: the HTTP client of \<^verbatim>\<open>api/axios\<close> with its two
  interceptors, and \<^verbatim>\<open>services/authService\<close>. The repository holds the code twice, as
  JavaScript (\<^verbatim>\<open>natvived.js\<close>) and as TypeScript (\<^verbatim>\<open>native.en.ts\<close>); both are
  modelled, and a definition that differs between them exists once per variant
  (suffix \<open>_js\<close>, \<open>_ts\<close>).
\<close>

subsection \<open>JSON values\<close>

text \<open>
  A number is kept as its literal: nothing below depends on numeric values. The members of
  an object are kept in insertion order.
\<close>

datatype json =
    JNull
  | JBool bool
  | JNumber string
  | JString string
  | JArray "json list"
  | JObject "(string \<times> json) list"

subsection \<open>Declared types (\<^verbatim>\<open>types/index.ts\<close>, \<^verbatim>\<open>services/authService.ts\<close>)\<close>

text \<open>
  \<^verbatim>\<open>interface User { id: string; email: string; fullName: string; phone?: string }\<close>.
  The field \<^verbatim>\<open>id\<close> is \<open>id'\<close> here, \<open>id\<close> being the identity function of HOL.
\<close>

record User =
  id' :: string
  email :: string
  fullName :: string
  phone :: "string option"

text \<open>The object that a \<open>User\<close> is at run time.\<close>

definition json_of_User :: "User \<Rightarrow> json" where
  "json_of_User u =
     JObject ([(''id'', JString (id' u)),
               (''email'', JString (email u)),
               (''fullName'', JString (fullName u))]
              @ (case phone u of None \<Rightarrow> [] | Some p \<Rightarrow> [(''phone'', JString p)]))"

text \<open>
  \<^verbatim>\<open>interface AuthResponse { token: string; user: User }\<close>. The code tests
  \<^verbatim>\<open>response.data.token\<close> before it uses it, so the token may be missing at run time;
  the user is used as it is declared.
\<close>

record AuthResponse =
  token :: "string option"
  user :: User

text \<open>The body of an error response: \<^verbatim>\<open>{ message }\<close>, where the message may be missing.\<close>

record ErrorBody =
  message :: "string option"

text \<open>What axios hands to the caller: \<^verbatim>\<open>response.status\<close> and \<^verbatim>\<open>response.data\<close>.\<close>

record 'd Response =
  status :: int
  data :: 'd

text \<open>
  Everything that can be thrown below the service functions. An axios error carries
  \<^verbatim>\<open>error.response\<close> when the server answered and \<^verbatim>\<open>error.request\<close> when the request
  was sent; the body of that response is \<open>None\<close> when it is \<^verbatim>\<open>null\<close> or
  \<^verbatim>\<open>undefined\<close>. The other errors have neither property: a rejection of the storage
  layer, the \<^verbatim>\<open>SyntaxError\<close> of \<^verbatim>\<open>JSON.parse\<close>, the \<^verbatim>\<open>ReferenceError\<close> of a global
  that the host does not define, the \<^verbatim>\<open>TypeError\<close> of a property read on
  \<^verbatim>\<open>null\<close> or \<^verbatim>\<open>undefined\<close>.
\<close>

datatype Error =
    AxiosError "ErrorBody option Response option" bool
  | StorageError
  | SyntaxError
  | ReferenceError
  | TypeError

definition error_response :: "Error \<Rightarrow> ErrorBody option Response option" where
  "error_response e =
     (case e of
        AxiosError r q \<Rightarrow> r
      | StorageError \<Rightarrow> None
      | SyntaxError \<Rightarrow> None
      | ReferenceError \<Rightarrow> None
      | TypeError \<Rightarrow> None)"

definition error_request :: "Error \<Rightarrow> bool" where
  "error_request e =
     (case e of
        AxiosError r q \<Rightarrow> q
      | StorageError \<Rightarrow> False
      | SyntaxError \<Rightarrow> False
      | ReferenceError \<Rightarrow> False
      | TypeError \<Rightarrow> False)"

text \<open>
  \<^verbatim>\<open>interface ErrorResponse { status: number; message: string }\<close>, the value that
  \<^verbatim>\<open>handleError\<close> builds and the service functions throw. Its fields carry a prime, the
  plain names being those of \<open>Response\<close> and \<open>ErrorBody\<close>.
\<close>

record ErrorResponse =
  status' :: int
  message' :: string

text \<open>The request configuration that the interceptors see (\<^verbatim>\<open>method\<close> and \<^verbatim>\<open>data\<close> are \<open>method'\<close> and \<open>data'\<close> here).\<close>

record Config =
  baseURL :: string
  timeout :: nat
  url :: string
  method' :: string
  headers :: "string \<rightharpoonup> string"
  data' :: "json option"

text \<open>
  The host that runs the code. The repository is a React Native application
  (\<^verbatim>\<open>babel.config.js\<close> builds with \<^verbatim>\<open>module:@react-native/babel-preset\<close>); the same
  code also runs in a browser.
\<close>

datatype Host = ReactNative | Web

text \<open>
  The state outside the functions: the host, the entries that \<^verbatim>\<open>AsyncStorage\<close> keeps,
  and \<^verbatim>\<open>window.location.href\<close>, which the JavaScript response interceptor assigns.

  Every call of \<^verbatim>\<open>AsyncStorage\<close> returns a promise that the persistence layer may reject.
  \<open>storageFaults\<close> is what the layer will do on the coming calls, in order: \<open>True\<close> rejects
  the call, \<open>False\<close> (or an exhausted list) lets it through.
\<close>

record World =
  host :: Host
  asyncStorage :: "string \<rightharpoonup> string"
  location_href :: string
  storageFaults :: "bool list"

text \<open>
  The JavaScript interceptors name a global \<^verbatim>\<open>localStorage\<close> that no file of the
  repository declares. React Native has no such global: evaluating the name throws a
  \<^verbatim>\<open>ReferenceError\<close>. A browser has it, and there it is the store in which
  \<^verbatim>\<open>AsyncStorage\<close> keeps its entries, under the same keys. \<open>localStorage w\<close> is the
  global where it exists.
\<close>

definition localStorage :: "World \<Rightarrow> (string \<rightharpoonup> string) option" where
  "localStorage w = (case host w of ReactNative \<Rightarrow> None | Web \<Rightarrow> Some (asyncStorage w))"

text \<open>The persistence layer lets the coming \<open>n\<close> calls of \<^verbatim>\<open>AsyncStorage\<close> through.\<close>

definition accepts :: "nat \<Rightarrow> World \<Rightarrow> bool" where
  "accepts n w \<longleftrightarrow> True \<notin> set (take n (storageFaults w))"

text \<open>A string or \<^verbatim>\<open>null\<close>/\<^verbatim>\<open>undefined\<close> in a condition: only a non-empty string is truthy.\<close>

definition truthy :: "string option \<Rightarrow> bool" where
  "truthy t = (case t of None \<Rightarrow> False | Some s \<Rightarrow> s \<noteq> [])"

section \<open>\<^verbatim>\<open>JSON.stringify\<close> and \<^verbatim>\<open>JSON.parse\<close>\<close>

text \<open>
  The cached profile is written with \<^verbatim>\<open>JSON.stringify\<close> and read back with
  \<^verbatim>\<open>JSON.parse\<close>. Both are built-ins of the language, modelled after ECMA-262:
  \<^verbatim>\<open>QuoteJSONString\<close> for strings, and a recursive-descent reader for the JSON grammar.

  A string is the list of its bytes in UTF-8, the reading of \<open>string\<close> in HOL: an ASCII
  character is one \<open>char\<close>, any other character is several, all from \<open>0x80\<close> up, which
  both built-ins copy as they are. A string that is not well-formed Unicode (a lone
  surrogate) has no bytes and is outside the model, and so is a text that escapes a
  character beyond ASCII: the reader returns \<open>None\<close> there.
\<close>

definition hex_digit :: "nat \<Rightarrow> char" where
  "hex_digit n = ''0123456789abcdef'' ! n"

text \<open>One code unit of a string, as \<^verbatim>\<open>QuoteJSONString\<close> writes it.\<close>

definition quote_char :: "char \<Rightarrow> string" where
  "quote_char c =
     (if c = CHR 0x22 then [CHR 0x5C, CHR 0x22]
      else if c = CHR 0x5C then [CHR 0x5C, CHR 0x5C]
      else if c = CHR 0x08 then [CHR 0x5C, CHR ''b'']
      else if c = CHR 0x0C then [CHR 0x5C, CHR ''f'']
      else if c = CHR 0x0A then [CHR 0x5C, CHR ''n'']
      else if c = CHR 0x0D then [CHR 0x5C, CHR ''r'']
      else if c = CHR 0x09 then [CHR 0x5C, CHR ''t'']
      else if (of_char c :: nat) < 32
        then [CHR 0x5C, CHR ''u'', CHR ''0'', CHR ''0'',
              hex_digit (of_char c div 16), hex_digit (of_char c mod 16)]
      else [c])"

definition QuoteJSONString :: "string \<Rightarrow> string" where
  "QuoteJSONString s = CHR 0x22 # concat (map quote_char s) @ [CHR 0x22]"

fun join :: "string \<Rightarrow> string list \<Rightarrow> string" where
  "join sep [] = []"
| "join sep [x] = x"
| "join sep (x # y # ys) = x @ sep @ join sep (y # ys)"

fun JSON_stringify :: "json \<Rightarrow> string" where
  "JSON_stringify JNull = ''null''"
| "JSON_stringify (JBool b) = (if b then ''true'' else ''false'')"
| "JSON_stringify (JNumber n) = n"
| "JSON_stringify (JString s) = QuoteJSONString s"
| "JSON_stringify (JArray xs) = ''['' @ join '','' (map JSON_stringify xs) @ '']''"
| "JSON_stringify (JObject kvs) =
     ''{'' @ join '','' (map (\<lambda>(k, v). QuoteJSONString k @ '':'' @ JSON_stringify v) kvs) @ ''}''"

text \<open>
  The reader. Each function takes the text that is left and returns what it read with the
  rest of the text, or \<open>None\<close> where \<^verbatim>\<open>JSON.parse\<close> throws a \<^verbatim>\<open>SyntaxError\<close>.
\<close>

definition is_ws :: "char \<Rightarrow> bool" where
  "is_ws c \<longleftrightarrow> c = CHR 0x20 \<or> c = CHR 0x09 \<or> c = CHR 0x0A \<or> c = CHR 0x0D"

definition skip_ws :: "string \<Rightarrow> string" where
  "skip_ws s = dropWhile is_ws s"

definition is_digit :: "char \<Rightarrow> bool" where
  "is_digit c \<longleftrightarrow> (48::nat) \<le> of_char c \<and> of_char c \<le> (57::nat)"

definition hex_val :: "char \<Rightarrow> nat option" where
  "hex_val c =
     (let n = (of_char c :: nat) in
      if 48 \<le> n \<and> n \<le> 57 then Some (n - 48)
      else if 97 \<le> n \<and> n \<le> 102 then Some (n - 87)
      else if 65 \<le> n \<and> n \<le> 70 then Some (n - 55)
      else None)"

definition hex4 :: "char \<Rightarrow> char \<Rightarrow> char \<Rightarrow> char \<Rightarrow> nat option" where
  "hex4 a b c d =
     (case (hex_val a, hex_val b, hex_val c, hex_val d) of
        (Some x1, Some x2, Some x3, Some x4) \<Rightarrow> Some (((x1 * 16 + x2) * 16 + x3) * 16 + x4)
      | _ \<Rightarrow> None)"

definition simple_escape :: "char \<Rightarrow> char option" where
  "simple_escape e =
     (if e = CHR 0x22 then Some (CHR 0x22)
      else if e = CHR 0x5C then Some (CHR 0x5C)
      else if e = CHR ''/'' then Some (CHR ''/'')
      else if e = CHR ''b'' then Some (CHR 0x08)
      else if e = CHR ''f'' then Some (CHR 0x0C)
      else if e = CHR ''n'' then Some (CHR 0x0A)
      else if e = CHR ''r'' then Some (CHR 0x0D)
      else if e = CHR ''t'' then Some (CHR 0x09)
      else None)"

fun parse_chars :: "string \<Rightarrow> (string \<times> string) option" where
  "parse_chars [] = None"
| "parse_chars (c # cs) =
     (if c = CHR 0x22 then Some ([], cs)
      else if c = CHR 0x5C then
        (case cs of
           [] \<Rightarrow> None
         | e # cs1 \<Rightarrow>
             if e = CHR ''u'' then
               (case cs1 of
                  h1 # h2 # h3 # h4 # cs2 \<Rightarrow>
                    (case hex4 h1 h2 h3 h4 of
                       None \<Rightarrow> None
                     | Some n \<Rightarrow>
                         if n < 128 then
                           (case parse_chars cs2 of
                              None \<Rightarrow> None
                            | Some (s, rest) \<Rightarrow> Some (char_of n # s, rest))
                         else None)
                | _ \<Rightarrow> None)
             else
               (case simple_escape e of
                  None \<Rightarrow> None
                | Some x \<Rightarrow>
                    (case parse_chars cs1 of
                       None \<Rightarrow> None
                     | Some (s, rest) \<Rightarrow> Some (x # s, rest))))
      else if (of_char c :: nat) < 32 then None
      else
        (case parse_chars cs of
           None \<Rightarrow> None
         | Some (s, rest) \<Rightarrow> Some (c # s, rest)))"

definition digits1 :: "string \<Rightarrow> (string \<times> string) option" where
  "digits1 s = (let ds = takeWhile is_digit s in
                if ds = [] then None else Some (ds, dropWhile is_digit s))"

definition parse_int_part :: "string \<Rightarrow> (string \<times> string) option" where
  "parse_int_part s =
     (case s of
        [] \<Rightarrow> None
      | c # cs \<Rightarrow> if c = CHR ''0'' then Some (''0'', cs) else digits1 s)"

definition parse_frac :: "string \<Rightarrow> (string \<times> string) option" where
  "parse_frac s =
     (case s of
        [] \<Rightarrow> Some ([], s)
      | c # cs \<Rightarrow>
          if c = CHR ''.'' then
            (case digits1 cs of None \<Rightarrow> None | Some (ds, r) \<Rightarrow> Some (c # ds, r))
          else Some ([], s))"

definition parse_exp :: "string \<Rightarrow> (string \<times> string) option" where
  "parse_exp s =
     (case s of
        [] \<Rightarrow> Some ([], s)
      | c # cs \<Rightarrow>
          if c = CHR ''e'' \<or> c = CHR ''E'' then
            (case cs of
               [] \<Rightarrow> None
             | g # cs1 \<Rightarrow>
                 if g = CHR ''+'' \<or> g = CHR ''-'' then
                   (case digits1 cs1 of None \<Rightarrow> None | Some (ds, r) \<Rightarrow> Some (c # g # ds, r))
                 else
                   (case digits1 cs of None \<Rightarrow> None | Some (ds, r) \<Rightarrow> Some (c # ds, r)))
          else Some ([], s))"

definition parse_number :: "string \<Rightarrow> (string \<times> string) option" where
  "parse_number s =
     (let (sign, s1) = (case s of c # cs \<Rightarrow> if c = CHR ''-'' then (''-'', cs) else ([], s) | [] \<Rightarrow> ([], s)) in
      case parse_int_part s1 of
        None \<Rightarrow> None
      | Some (i, s2) \<Rightarrow>
          (case parse_frac s2 of
             None \<Rightarrow> None
           | Some (f, s3) \<Rightarrow>
               (case parse_exp s3 of
                  None \<Rightarrow> None
                | Some (e, s4) \<Rightarrow> Some (sign @ i @ f @ e, s4))))"

definition parse_literal :: "string \<Rightarrow> json \<Rightarrow> string \<Rightarrow> (json \<times> string) option" where
  "parse_literal lit v s =
     (if take (length lit) s = lit then Some (v, drop (length lit) s) else None)"

definition set_member :: "string \<Rightarrow> json \<Rightarrow> (string \<times> json) list \<Rightarrow> (string \<times> json) list" where
  "set_member k v kvs = AList.update k v kvs"

text \<open>A value that holds no other value: a string, a literal name or a number.\<close>

definition parse_scalar :: "string \<Rightarrow> (json \<times> string) option" where
  "parse_scalar s =
     (case s of
        [] \<Rightarrow> None
      | c # cs \<Rightarrow>
          if c = CHR 0x22 then
            (case parse_chars cs of
               None \<Rightarrow> None
             | Some (str, rest) \<Rightarrow> Some (JString str, rest))
          else if c = CHR ''t'' then parse_literal ''true'' (JBool True) s
          else if c = CHR ''f'' then parse_literal ''false'' (JBool False) s
          else if c = CHR ''n'' then parse_literal ''null'' JNull s
          else
            (case parse_number s of
               None \<Rightarrow> None
             | Some (lexeme, rest) \<Rightarrow> Some (JNumber lexeme, rest)))"

text \<open>
  A value, the elements of an array after its bracket, the members of an object after its
  brace. The first argument bounds the calls that are still allowed and goes down by one
  with each; \<open>JSON_parse\<close> below starts it above the length of the text.
\<close>

fun parse_value :: "nat \<Rightarrow> string \<Rightarrow> (json \<times> string) option"
  and parse_elements :: "nat \<Rightarrow> string \<Rightarrow> (json list \<times> string) option"
  and parse_members :: "nat \<Rightarrow> string \<Rightarrow> ((string \<times> json) list \<times> string) option"
where
  "parse_value 0 s = None"
| "parse_value (Suc n) s =
     (case skip_ws s of
        [] \<Rightarrow> None
      | c # cs \<Rightarrow>
          if c = CHR ''{'' then
            (case skip_ws cs of
               [] \<Rightarrow> None
             | d # ds \<Rightarrow>
                 if d = CHR ''}'' then Some (JObject [], ds)
                 else (case parse_members n (d # ds) of
                         None \<Rightarrow> None
                       | Some (kvs, rest) \<Rightarrow> Some (JObject (foldl (\<lambda>acc (k, v). set_member k v acc) [] kvs), rest)))
          else if c = CHR ''['' then
            (case skip_ws cs of
               [] \<Rightarrow> None
             | d # ds \<Rightarrow>
                 if d = CHR '']'' then Some (JArray [], ds)
                 else (case parse_elements n (d # ds) of
                         None \<Rightarrow> None
                       | Some (xs, rest) \<Rightarrow> Some (JArray xs, rest)))
          else parse_scalar (c # cs))"
| "parse_elements 0 s = None"
| "parse_elements (Suc n) s =
     (case parse_value n s of
        None \<Rightarrow> None
      | Some (v, r1) \<Rightarrow>
          (case skip_ws r1 of
             [] \<Rightarrow> None
           | x # r2 \<Rightarrow>
               if x = CHR '','' then
                 (case parse_elements n r2 of
                    None \<Rightarrow> None
                  | Some (vs, r3) \<Rightarrow> Some (v # vs, r3))
               else if x = CHR '']'' then Some ([v], r2)
               else None))"
| "parse_members 0 s = None"
| "parse_members (Suc n) s =
     (case skip_ws s of
        [] \<Rightarrow> None
      | q # cs \<Rightarrow>
          if q = CHR 0x22 then
            (case parse_chars cs of
               None \<Rightarrow> None
             | Some (k, r1) \<Rightarrow>
                 (case skip_ws r1 of
                    [] \<Rightarrow> None
                  | col # r2 \<Rightarrow>
                      if col = CHR '':'' then
                        (case parse_value n r2 of
                           None \<Rightarrow> None
                         | Some (v, r3) \<Rightarrow>
                             (case skip_ws r3 of
                                [] \<Rightarrow> None
                              | x # r4 \<Rightarrow>
                                  if x = CHR '','' then
                                    (case parse_members n r4 of
                                       None \<Rightarrow> None
                                     | Some (kvs, r5) \<Rightarrow> Some ((k, v) # kvs, r5))
                                  else if x = CHR ''}'' then Some ([(k, v)], r4)
                                  else None))
                      else None))
          else None)"

text \<open>
  \<open>JSON_parse\<close> allows one call more than the text has characters. That is enough for every
  text: \<open>JSON_parse_enough_fuel\<close> below shows that a result reached with any number of
  calls is reached with this one.
\<close>

definition JSON_parse :: "string \<Rightarrow> Error + json" where
  "JSON_parse s =
     (case parse_value (Suc (length s)) s of
        None \<Rightarrow> Inl SyntaxError
      | Some (v, rest) \<Rightarrow> if skip_ws rest = [] then Inr v else Inl SyntaxError)"

section \<open>The key-value stores\<close>

definition next_fault :: "World \<Rightarrow> bool \<times> World" where
  "next_fault w =
     (case storageFaults w of
        [] \<Rightarrow> (False, w)
      | f # fs \<Rightarrow> (f, w\<lparr>storageFaults := fs\<rparr>))"

definition AsyncStorage_getItem :: "string \<Rightarrow> World \<Rightarrow> (Error + string option) \<times> World" where
  "AsyncStorage_getItem k w =
     (case next_fault w of
        (True, w1) \<Rightarrow> (Inl StorageError, w1)
      | (False, w1) \<Rightarrow> (Inr (asyncStorage w1 k), w1))"

definition AsyncStorage_setItem :: "string \<Rightarrow> string \<Rightarrow> World \<Rightarrow> (Error + unit) \<times> World" where
  "AsyncStorage_setItem k v w =
     (case next_fault w of
        (True, w1) \<Rightarrow> (Inl StorageError, w1)
      | (False, w1) \<Rightarrow> (Inr (), w1\<lparr>asyncStorage := (asyncStorage w1)(k \<mapsto> v)\<rparr>))"

definition AsyncStorage_removeItem :: "string \<Rightarrow> World \<Rightarrow> (Error + unit) \<times> World" where
  "AsyncStorage_removeItem k w =
     (case next_fault w of
        (True, w1) \<Rightarrow> (Inl StorageError, w1)
      | (False, w1) \<Rightarrow> (Inr (), w1\<lparr>asyncStorage := (asyncStorage w1)(k := None)\<rparr>))"

text \<open>
  The two calls on the global \<^verbatim>\<open>localStorage\<close>. They are synchronous, and they throw
  where the global does not exist.
\<close>

definition localStorage_getItem :: "string \<Rightarrow> World \<Rightarrow> Error + string option" where
  "localStorage_getItem k w =
     (case localStorage w of
        None \<Rightarrow> Inl ReferenceError
      | Some store \<Rightarrow> Inr (store k))"

definition localStorage_removeItem :: "string \<Rightarrow> World \<Rightarrow> Error + World" where
  "localStorage_removeItem k w =
     (case localStorage w of
        None \<Rightarrow> Inl ReferenceError
      | Some store \<Rightarrow> Inr (w\<lparr>asyncStorage := store(k := None)\<rparr>))"

section \<open>The HTTP client (\<^verbatim>\<open>api/axios\<close>)\<close>

definition API_URL :: string where
  "API_URL = ''https://api.votreserveur.com''"

text \<open>The configuration of \<^verbatim>\<open>axios.create\<close>, which every request starts from.\<close>

definition axiosInstance :: Config where
  "axiosInstance =
     \<lparr>baseURL = API_URL, timeout = 10000, url = [], method' = ''get'',
      headers = [''Content-Type'' \<mapsto> ''application/json''], data' = None\<rparr>"

subsection \<open>Request interceptor\<close>

text \<open>
  \<^verbatim>\<open>natvived.js\<close>: the token is read from \<^verbatim>\<open>localStorage\<close>, synchronously. Where the
  global does not exist the handler throws, and the request is rejected with that error.
\<close>

definition request_interceptor_js :: "Config \<Rightarrow> World \<Rightarrow> (Error + Config) \<times> World" where
  "request_interceptor_js config w =
     (case localStorage_getItem ''token'' w of
        Inl e \<Rightarrow> (Inl e, w)
      | Inr None \<Rightarrow> (Inr config, w)
      | Inr (Some t) \<Rightarrow>
          if t \<noteq> [] then
            (Inr (config\<lparr>headers := (headers config)(''Authorization'' \<mapsto> ''Bearer '' @ t)\<rparr>), w)
          else (Inr config, w))"

text \<open>\<^verbatim>\<open>native.en.ts\<close>: the token is read from \<^verbatim>\<open>AsyncStorage\<close>, and the read is awaited.\<close>

definition request_interceptor_ts :: "Config \<Rightarrow> World \<Rightarrow> (Error + Config) \<times> World" where
  "request_interceptor_ts config w =
     (case AsyncStorage_getItem ''token'' w of
        (Inl e, w1) \<Rightarrow> (Inl e, w1)
      | (Inr None, w1) \<Rightarrow> (Inr config, w1)
      | (Inr (Some t), w1) \<Rightarrow>
          if t \<noteq> [] then
            (Inr (config\<lparr>headers := (headers config)(''Authorization'' \<mapsto> ''Bearer '' @ t)\<rparr>), w1)
          else (Inr config, w1))"

subsection \<open>Response interceptor\<close>

text \<open>
  The handler of a fulfilled response is the identity. The handler of a rejected one
  returns the error that the promise is rejected with, which is the error it received
  unless the handler itself throws. In \<^verbatim>\<open>natvived.js\<close> the removal comes first and the
  assignment of \<^verbatim>\<open>window.location.href\<close> second, so a host without
  \<^verbatim>\<open>localStorage\<close> never reaches the assignment.
\<close>

definition is_401 :: "Error \<Rightarrow> bool" where
  "is_401 e = (case error_response e of None \<Rightarrow> False | Some r \<Rightarrow> status r = 401)"

definition response_rejected_js :: "Error \<Rightarrow> World \<Rightarrow> Error \<times> World" where
  "response_rejected_js e w =
     (if is_401 e then
        (case localStorage_removeItem ''token'' w of
           Inl e1 \<Rightarrow> (e1, w)
         | Inr w1 \<Rightarrow> (e, w1\<lparr>location_href := ''/login''\<rparr>))
      else (e, w))"

definition response_rejected_ts :: "Error \<Rightarrow> World \<Rightarrow> Error \<times> World" where
  "response_rejected_ts e w =
     (if is_401 e then
        (case AsyncStorage_removeItem ''token'' w of
           (Inl e1, w1) \<Rightarrow> (e1, w1)
         | (Inr u, w1) \<Rightarrow> (e, w1))
      else (e, w))"

subsection \<open>A request through the client\<close>

datatype Variant = JS | TS

definition request_interceptor :: "Variant \<Rightarrow> Config \<Rightarrow> World \<Rightarrow> (Error + Config) \<times> World" where
  "request_interceptor v = (case v of JS \<Rightarrow> request_interceptor_js | TS \<Rightarrow> request_interceptor_ts)"

definition response_rejected :: "Variant \<Rightarrow> Error \<Rightarrow> World \<Rightarrow> Error \<times> World" where
  "response_rejected v = (case v of JS \<Rightarrow> response_rejected_js | TS \<Rightarrow> response_rejected_ts)"

text \<open>
  The chain that axios builds: the request interceptor, the adapter, the response
  interceptor. The adapter is the network and the server: given the configuration that is
  sent, it fulfils with a response (a status that axios accepts) or rejects with an error.
  A rejection of the request interceptor skips the adapter and reaches the rejected
  handler of the response interceptor.
\<close>

definition axios_request ::
  "Variant \<Rightarrow> (Config \<Rightarrow> Error + 'd Response) \<Rightarrow> Config \<Rightarrow> World \<Rightarrow> (Error + 'd Response) \<times> World" where
  "axios_request v adapter config w =
     (case request_interceptor v config w of
        (Inl e, w1) \<Rightarrow> (case response_rejected v e w1 of (e1, w2) \<Rightarrow> (Inl e1, w2))
      | (Inr config1, w1) \<Rightarrow>
          (case adapter config1 of
             Inr response \<Rightarrow> (Inr response, w1)
           | Inl e \<Rightarrow> (case response_rejected v e w1 of (e1, w2) \<Rightarrow> (Inl e1, w2))))"

definition axios_post ::
  "Variant \<Rightarrow> (Config \<Rightarrow> Error + 'd Response) \<Rightarrow> string \<Rightarrow> json option \<Rightarrow> World
     \<Rightarrow> (Error + 'd Response) \<times> World" where
  "axios_post v adapter path body w =
     axios_request v adapter (axiosInstance\<lparr>url := path, method' := ''post'', data' := body\<rparr>) w"

section \<open>The auth service (\<^verbatim>\<open>services/authService\<close>)\<close>

text \<open>
  \<^verbatim>\<open>handleError\<close> builds its value field by field: \<^verbatim>\<open>error.response.status\<close>, then
  \<^verbatim>\<open>error.response.data.message\<close>. The second read throws a \<^verbatim>\<open>TypeError\<close> when the
  body is \<^verbatim>\<open>null\<close> or \<^verbatim>\<open>undefined\<close>, so the result is a sum: \<open>Inr\<close> the value
  returned, \<open>Inl\<close> the error thrown.
\<close>

definition handleError :: "Error \<Rightarrow> Error + ErrorResponse" where
  "handleError e =
     (case error_response e of
        Some r \<Rightarrow>
          (case data r of
             None \<Rightarrow> Inl TypeError
           | Some body \<Rightarrow>
               Inr \<lparr>status' = status r,
                    message' = (case message body of
                                  None \<Rightarrow> ''Une erreur est survenue''
                                | Some m \<Rightarrow> if m \<noteq> [] then m else ''Une erreur est survenue'')\<rparr>)
      | None \<Rightarrow>
          if error_request e then
            Inr \<lparr>status' = 503, message' = ''Le serveur ne r'' @ [CHR 0xC3, CHR 0xA9] @ ''pond pas''\<rparr>
          else
            Inr \<lparr>status' = 500,
                 message' = ''Erreur lors de la configuration de la requ'' @ [CHR 0xC3, CHR 0xAA] @ ''te''\<rparr>)"

text \<open>
  Every service function that catches ends with \<^verbatim>\<open>throw handleError(error)\<close>: what the
  caller catches is the value of \<^verbatim>\<open>handleError\<close>, or the error that \<^verbatim>\<open>handleError\<close>
  threw. That is \<open>handleError e\<close> as it stands, so a service function returns
  \<open>Inl (handleError e)\<close> where it throws.

  \<^verbatim>\<open>login(email, password)\<close> in JavaScript, \<^verbatim>\<open>login(credentials)\<close> in TypeScript: both
  post the object \<^verbatim>\<open>{ email, password }\<close>.
\<close>

definition login ::
  "Variant \<Rightarrow> (Config \<Rightarrow> Error + AuthResponse Response) \<Rightarrow> string \<Rightarrow> string \<Rightarrow> World
     \<Rightarrow> ((Error + ErrorResponse) + AuthResponse) \<times> World" where
  "login v adapter mail password w =
     (case axios_post v adapter ''/auth/login''
             (Some (JObject [(''email'', JString mail), (''password'', JString password)])) w of
        (Inl e, w1) \<Rightarrow> (Inl (handleError e), w1)
      | (Inr response, w1) \<Rightarrow>
          (case token (data response) of
             None \<Rightarrow> (Inr (data response), w1)
           | Some t \<Rightarrow>
               if t \<noteq> [] then
                 (case AsyncStorage_setItem ''token'' t w1 of
                    (Inl e, w2) \<Rightarrow> (Inl (handleError e), w2)
                  | (Inr u2, w2) \<Rightarrow>
                      (case AsyncStorage_setItem ''user''
                              (JSON_stringify (json_of_User (user (data response)))) w2 of
                         (Inl e, w3) \<Rightarrow> (Inl (handleError e), w3)
                       | (Inr u3, w3) \<Rightarrow> (Inr (data response), w3)))
               else (Inr (data response), w1)))"

definition register ::
  "Variant \<Rightarrow> (Config \<Rightarrow> Error + AuthResponse Response) \<Rightarrow> json \<Rightarrow> World
     \<Rightarrow> ((Error + ErrorResponse) + AuthResponse) \<times> World" where
  "register v adapter userData w =
     (case axios_post v adapter ''/auth/register'' (Some userData) w of
        (Inl e, w1) \<Rightarrow> (Inl (handleError e), w1)
      | (Inr response, w1) \<Rightarrow> (Inr (data response), w1))"

text \<open>Nothing is written to \<^verbatim>\<open>console.error\<close> in the model: the log is not part of the state.\<close>

definition logout ::
  "Variant \<Rightarrow> (Config \<Rightarrow> Error + 'd Response) \<Rightarrow> World
     \<Rightarrow> ((Error + ErrorResponse) + unit) \<times> World" where
  "logout v adapter w =
     (case AsyncStorage_removeItem ''token'' w of
        (Inl e, w1) \<Rightarrow> (Inl (handleError e), w1)
      | (Inr u1, w1) \<Rightarrow>
          (case AsyncStorage_removeItem ''user'' w1 of
             (Inl e, w2) \<Rightarrow> (Inl (handleError e), w2)
           | (Inr u2, w2) \<Rightarrow>
               (case axios_post v adapter ''/auth/logout'' None w2 of
                  (Inl e, w3) \<Rightarrow> (Inl (handleError e), w3)
                | (Inr response, w3) \<Rightarrow> (Inr (), w3))))"

text \<open>
  \<^verbatim>\<open>getCurrentUser\<close> returns a JSON value, \<open>JNull\<close> being \<^verbatim>\<open>null\<close>. Its result is a sum as
  for the other functions, so that returning and throwing are told apart.
\<close>

definition getCurrentUser :: "World \<Rightarrow> (Error + json) \<times> World" where
  "getCurrentUser w =
     (case AsyncStorage_getItem ''user'' w of
        (Inl e, w1) \<Rightarrow> (Inr JNull, w1)
      | (Inr None, w1) \<Rightarrow> (Inr JNull, w1)
      | (Inr (Some s), w1) \<Rightarrow>
          if s \<noteq> [] then
            (case JSON_parse s of
               Inl e \<Rightarrow> (Inr JNull, w1)
             | Inr j \<Rightarrow> (Inr j, w1))
          else (Inr JNull, w1))"

definition isAuthenticated :: "World \<Rightarrow> (Error + bool) \<times> World" where
  "isAuthenticated w =
     (case AsyncStorage_getItem ''token'' w of
        (Inl e, w1) \<Rightarrow> (Inl e, w1)
      | (Inr t, w1) \<Rightarrow> (Inr (truthy t), w1))"

section \<open>Worlds used in the examples\<close>

text \<open>
  The state at process start on React Native: nothing stored, a persistence layer that
  does not fail.
\<close>

definition initial_World :: World where
  "initial_World =
     \<lparr>host = ReactNative, asyncStorage = Map.empty, location_href = [], storageFaults = []\<rparr>"

text \<open>The profile and the answers of the server that the examples use.\<close>

definition sample_User :: User where
  "sample_User = \<lparr>id' = ''1'', email = ''a@b.com'', fullName = ''A'', phone = None\<rparr>"

definition login_ok :: "Config \<Rightarrow> Error + AuthResponse Response" where
  "login_ok c = Inr \<lparr>status = 200, data = \<lparr>token = Some ''T1'', user = sample_User\<rparr>\<rparr>"

definition unauthorized :: Error where
  "unauthorized =
     AxiosError (Some \<lparr>status = 401, data = Some \<lparr>message = Some ''Unauthorized''\<rparr>\<rparr>) True"




definition no_answer :: "Config \<Rightarrow> Error + AuthResponse Response" where
  "no_answer c = Inl (AxiosError None True)"

definition post_401 :: "Config \<Rightarrow> Error + unit Response" where
  "post_401 c = Inl unauthorized"

text \<open>
  The state after \<^verbatim>\<open>login({ email: 'a@b.com', password: 'x' })\<close> of \<^verbatim>\<open>native.en.ts\<close>
  at process start, answered with a token.
\<close>

definition logged_in :: World where
  "logged_in = snd (login TS login_ok ''a@b.com'' ''x'' initial_World)"

definition products_request :: Config where
  "products_request = axiosInstance\<lparr>url := ''/products'', method' := ''post''\<rparr>"

section \<open>Facts about the stores\<close>

lemma next_fault_none: "storageFaults w = [] \<Longrightarrow> next_fault w = (False, w)"
  by (simp add: next_fault_def)

lemma getItem_ok:
  "storageFaults w = [] \<Longrightarrow> AsyncStorage_getItem k w = (Inr (asyncStorage w k), w)"
  by (simp add: AsyncStorage_getItem_def next_fault_none)

lemma setItem_ok:
  "storageFaults w = [] \<Longrightarrow>
     AsyncStorage_setItem k x w = (Inr (), w\<lparr>asyncStorage := (asyncStorage w)(k \<mapsto> x)\<rparr>)"
  by (simp add: AsyncStorage_setItem_def next_fault_none)


lemma accepts_none: "storageFaults w = [] \<Longrightarrow> accepts n w"
  by (simp add: accepts_def)

lemma accepts_one: "accepts (Suc 0) w \<longleftrightarrow> (case storageFaults w of [] \<Rightarrow> True | f # fs \<Rightarrow> \<not> f)"
  by (auto simp: accepts_def split: list.splits)

lemma accepts_Suc:
  "accepts (Suc n) w \<longleftrightarrow>
     accepts (Suc 0) w \<and> accepts n (w\<lparr>storageFaults := drop 1 (storageFaults w)\<rparr>)"
  by (cases "storageFaults w") (auto simp: accepts_def)

lemma accepts_asyncStorage_update: "accepts n (w\<lparr>asyncStorage := m\<rparr>) = accepts n w"
  by (simp add: accepts_def)

lemma accepts_location_update: "accepts n (w\<lparr>location_href := h\<rparr>) = accepts n w"
  by (simp add: accepts_def)

lemma next_fault_eq:
  "next_fault w = (\<not> accepts (Suc 0) w, w\<lparr>storageFaults := drop 1 (storageFaults w)\<rparr>)"
  by (cases w) (auto simp: next_fault_def accepts_def split: list.splits)

lemma getItem_eq:
  "AsyncStorage_getItem k w =
     (if accepts (Suc 0) w then Inr (asyncStorage w k) else Inl StorageError,
      w\<lparr>storageFaults := drop 1 (storageFaults w)\<rparr>)"
  by (simp add: AsyncStorage_getItem_def next_fault_eq)

lemma setItem_eq:
  "AsyncStorage_setItem k x w =
     (if accepts (Suc 0) w
      then (Inr (), w\<lparr>asyncStorage := (asyncStorage w)(k \<mapsto> x),
                       storageFaults := drop 1 (storageFaults w)\<rparr>)
      else (Inl StorageError, w\<lparr>storageFaults := drop 1 (storageFaults w)\<rparr>))"
  by (simp add: AsyncStorage_setItem_def next_fault_eq)

lemma removeItem_eq:
  "AsyncStorage_removeItem k w =
     (if accepts (Suc 0) w
      then (Inr (), w\<lparr>asyncStorage := (asyncStorage w)(k := None),
                       storageFaults := drop 1 (storageFaults w)\<rparr>)
      else (Inl StorageError, w\<lparr>storageFaults := drop 1 (storageFaults w)\<rparr>))"
  by (simp add: AsyncStorage_removeItem_def next_fault_eq)

lemma getItem_frame:
  "AsyncStorage_getItem k w = (r, w1) \<Longrightarrow>
     asyncStorage w1 = asyncStorage w \<and> host w1 = host w
     \<and> location_href w1 = location_href w"
  by (auto simp: getItem_eq)

lemma getItem_value:
  "AsyncStorage_getItem k w = (Inr x, w1) \<Longrightarrow> x = asyncStorage w k"
  by (auto simp: getItem_eq split: if_splits)

lemma setItem_effect:
  "AsyncStorage_setItem k x w = (Inr u, w1) \<Longrightarrow>
     asyncStorage w1 = (asyncStorage w)(k \<mapsto> x) \<and> host w1 = host w
     \<and> location_href w1 = location_href w"
  by (auto simp: setItem_eq split: if_splits)

lemma removeItem_effect:
  "AsyncStorage_removeItem k w = (Inr u, w1) \<Longrightarrow>
     asyncStorage w1 = (asyncStorage w)(k := None) \<and> host w1 = host w
     \<and> location_href w1 = location_href w"
  by (auto simp: removeItem_eq split: if_splits)

lemma removeItem_rejected:
  "AsyncStorage_removeItem k w = (Inl e, w1) \<Longrightarrow>
     e = StorageError \<and> asyncStorage w1 = asyncStorage w \<and> host w1 = host w
     \<and> location_href w1 = location_href w"
  by (auto simp: removeItem_eq split: if_splits)

lemma localStorage_frame:
  "asyncStorage w1 = asyncStorage w \<Longrightarrow> host w1 = host w \<Longrightarrow> localStorage w1 = localStorage w"
  by (simp add: localStorage_def split: Host.splits)

lemma isAuthenticated_eq:
  "isAuthenticated w =
     (if accepts (Suc 0) w then Inr (truthy (asyncStorage w ''token'')) else Inl StorageError,
      w\<lparr>storageFaults := drop 1 (storageFaults w)\<rparr>)"
  by (simp add: isAuthenticated_def getItem_eq)

lemma isAuthenticated_ok:
  "storageFaults w = [] \<Longrightarrow> isAuthenticated w = (Inr (truthy (asyncStorage w ''token'')), w)"
  by (simp add: isAuthenticated_def getItem_ok)

lemma isAuthenticated_not_true:
  "\<not> truthy (asyncStorage w ''token'') \<Longrightarrow> fst (isAuthenticated w) \<noteq> Inr True"
  by (simp add: isAuthenticated_eq)

section \<open>The reader has calls enough\<close>

text \<open>
  Every successful call of the reader consumes at least one character, and needs no more
  calls than the characters it consumes.
\<close>

lemma length_skip_ws: "length (skip_ws s) \<le> length s"
  by (simp add: skip_ws_def length_dropWhile_le)

lemma skip_ws_ConsD: "skip_ws s = c # cs \<Longrightarrow> length cs < length s"
  using length_skip_ws [of s] by simp

lemma parse_chars_shorter: "parse_chars s = Some (str, r) \<Longrightarrow> length r < length s"
proof (induction s arbitrary: str r rule: parse_chars.induct)
  case 1
  then show ?case by simp
next
  case (2 c cs)
  then show ?case
    by (fastforce split: if_splits list.splits option.splits prod.splits)
qed

lemma digits1_shorter: "digits1 s = Some (ds, r) \<Longrightarrow> length r < length s"
proof -
  assume a: "digits1 s = Some (ds, r)"
  then have "takeWhile is_digit s \<noteq> []" and "r = dropWhile is_digit s"
    by (auto simp: digits1_def Let_def split: if_splits)
  moreover have "length (takeWhile is_digit s) + length (dropWhile is_digit s) = length s"
    by (metis length_append takeWhile_dropWhile_id)
  ultimately show ?thesis
    by (cases "takeWhile is_digit s") auto
qed

lemma parse_int_part_shorter: "parse_int_part s = Some (i, r) \<Longrightarrow> length r < length s"
  by (auto simp: parse_int_part_def split: list.splits if_splits dest: digits1_shorter)

lemma parse_frac_shorter: "parse_frac s = Some (f, r) \<Longrightarrow> length r \<le> length s"
  by (auto simp: parse_frac_def split: list.splits if_splits option.splits
        dest!: digits1_shorter)

lemma parse_exp_shorter: "parse_exp s = Some (f, r) \<Longrightarrow> length r \<le> length s"
  by (auto simp: parse_exp_def split: list.splits if_splits option.splits
        dest!: digits1_shorter)

lemma parse_number_shorter: "parse_number s = Some (l, r) \<Longrightarrow> length r < length s"
  by (auto simp: parse_number_def Let_def
        split: list.splits if_splits option.splits prod.splits
        dest!: parse_int_part_shorter parse_frac_shorter parse_exp_shorter)

lemma parse_literal_shorter:
  "parse_literal lit v s = Some (v', r) \<Longrightarrow> lit \<noteq> [] \<Longrightarrow> length r < length s"
proof -
  assume a: "parse_literal lit v s = Some (v', r)" and n: "lit \<noteq> []"
  then have t: "take (length lit) s = lit" and r: "r = drop (length lit) s"
    by (auto simp: parse_literal_def split: if_splits)
  from t have "length (take (length lit) s) = length lit"
    by simp
  then have "length lit \<le> length s"
    by simp
  with n r show ?thesis by (cases lit) auto
qed

lemma parse_scalar_shorter: "parse_scalar s = Some (v, r) \<Longrightarrow> length r < length s"
  by (auto simp: parse_scalar_def split: list.splits if_splits option.splits prod.splits
        dest: parse_chars_shorter parse_number_shorter parse_literal_shorter)


lemma parse_value_fuel_step:
  assumes IHe: "\<And>s vs r. parse_elements m s = Some (vs, r) \<Longrightarrow>
                  length r < length s
                  \<and> (\<forall>n. length s - length r \<le> n \<longrightarrow> parse_elements n s = Some (vs, r))"
    and IHm: "\<And>s kvs r. parse_members m s = Some (kvs, r) \<Longrightarrow>
                  length r < length s
                  \<and> (\<forall>n. length s - length r \<le> n \<longrightarrow> parse_members n s = Some (kvs, r))"
    and pv: "parse_value (Suc m) s = Some (v, r)"
  shows "length r < length s
         \<and> (\<forall>n. length s - length r \<le> n \<longrightarrow> parse_value n s = Some (v, r))"
proof -
  from pv obtain c cs where sk: "skip_ws s = c # cs"
    by (auto split: list.splits)
  have lcs: "length cs < length s"
    by (rule skip_ws_ConsD [OF sk])
  consider (obj) "c = CHR ''{''" | (arr) "c \<noteq> CHR ''{''" "c = CHR ''[''"
    | (scalar) "c \<noteq> CHR ''{''" "c \<noteq> CHR ''[''"
    by blast
  then show ?thesis
  proof cases
    case obj
    with pv sk obtain d ds where sk2: "skip_ws cs = d # ds"
      by (auto split: list.splits)
    have lds: "length ds < length cs"
      by (rule skip_ws_ConsD [OF sk2])
    show ?thesis
    proof (cases "d = CHR ''}''")
      case True
      with pv sk sk2 obj have res: "v = JObject []" "r = ds"
        by auto
      have "parse_value n s = Some (v, r)" if "length s - length r \<le> n" for n
      proof -
        from that lcs lds res obtain k where "n = Suc k"
          by (cases n) auto
        then show ?thesis
          using sk sk2 obj True res by simp
      qed
      with lcs lds res show ?thesis by simp
    next
      case False
      with pv sk sk2 obj obtain kvs where
        pm: "parse_members m (d # ds) = Some (kvs, r)"
        and res: "v = JObject (foldl (\<lambda>acc (k, v). set_member k v acc) [] kvs)"
        by (auto split: option.splits)
      from IHm [OF pm] have l: "length r < length (d # ds)"
        and f: "\<And>n. length (d # ds) - length r \<le> n \<Longrightarrow> parse_members n (d # ds) = Some (kvs, r)"
        by auto
      have "parse_value n s = Some (v, r)" if "length s - length r \<le> n" for n
      proof -
        from that lcs lds l obtain k where k: "n = Suc k"
          by (cases n) auto
        with that lcs lds l have "length (d # ds) - length r \<le> k"
          by simp
        from f [OF this] show ?thesis
          using k sk sk2 obj False res by simp
      qed
      with lcs lds l show ?thesis by simp
    qed
  next
    case arr
    with pv sk obtain d ds where sk2: "skip_ws cs = d # ds"
      by (auto split: list.splits)
    have lds: "length ds < length cs"
      by (rule skip_ws_ConsD [OF sk2])
    show ?thesis
    proof (cases "d = CHR '']''")
      case True
      with pv sk sk2 arr have res: "v = JArray []" "r = ds"
        by auto
      have "parse_value n s = Some (v, r)" if "length s - length r \<le> n" for n
      proof -
        from that lcs lds res obtain k where "n = Suc k"
          by (cases n) auto
        then show ?thesis
          using sk sk2 arr True res by simp
      qed
      with lcs lds res show ?thesis by simp
    next
      case False
      with pv sk sk2 arr obtain xs where
        pe: "parse_elements m (d # ds) = Some (xs, r)" and res: "v = JArray xs"
        by (auto split: option.splits)
      from IHe [OF pe] have l: "length r < length (d # ds)"
        and f: "\<And>n. length (d # ds) - length r \<le> n \<Longrightarrow> parse_elements n (d # ds) = Some (xs, r)"
        by auto
      have "parse_value n s = Some (v, r)" if "length s - length r \<le> n" for n
      proof -
        from that lcs lds l obtain k where k: "n = Suc k"
          by (cases n) auto
        with that lcs lds l have "length (d # ds) - length r \<le> k"
          by simp
        from f [OF this] show ?thesis
          using k sk sk2 arr False res by simp
      qed
      with lcs lds l show ?thesis by simp
    qed
  next
    case scalar
    with pv sk have ps: "parse_scalar (c # cs) = Some (v, r)"
      by simp
    from parse_scalar_shorter [OF ps] have l: "length r < length (c # cs)" .
    have "parse_value n s = Some (v, r)" if "length s - length r \<le> n" for n
    proof -
      from that lcs l obtain k where "n = Suc k"
        by (cases n) auto
      then show ?thesis
        using sk scalar ps by simp
    qed
    with lcs l show ?thesis by simp
  qed
qed

lemma parse_elements_fuel_step:
  assumes IHv: "\<And>s v r. parse_value m s = Some (v, r) \<Longrightarrow>
                  length r < length s
                  \<and> (\<forall>n. length s - length r \<le> n \<longrightarrow> parse_value n s = Some (v, r))"
    and IHe: "\<And>s vs r. parse_elements m s = Some (vs, r) \<Longrightarrow>
                  length r < length s
                  \<and> (\<forall>n. length s - length r \<le> n \<longrightarrow> parse_elements n s = Some (vs, r))"
    and pe: "parse_elements (Suc m) s = Some (vs, r)"
  shows "length r < length s
         \<and> (\<forall>n. length s - length r \<le> n \<longrightarrow> parse_elements n s = Some (vs, r))"
proof -
  from pe obtain v r1 where pv: "parse_value m s = Some (v, r1)"
    by (auto split: option.splits)
  from IHv [OF pv] have l1: "length r1 < length s"
    and f1: "\<And>n. length s - length r1 \<le> n \<Longrightarrow> parse_value n s = Some (v, r1)"
    by auto
  from pe pv obtain x r2 where sk: "skip_ws r1 = x # r2"
    by (auto split: list.splits)
  have l2: "length r2 < length r1"
    by (rule skip_ws_ConsD [OF sk])
  show ?thesis
  proof (cases "x = CHR '',''")
    case True
    with pe pv sk obtain vs1 where pe1: "parse_elements m r2 = Some (vs1, r)"
      and res: "vs = v # vs1"
      by (auto split: option.splits)
    from IHe [OF pe1] have l3: "length r < length r2"
      and f3: "\<And>n. length r2 - length r \<le> n \<Longrightarrow> parse_elements n r2 = Some (vs1, r)"
      by auto
    have "parse_elements n s = Some (vs, r)" if "length s - length r \<le> n" for n
    proof -
      from that l1 l2 l3 obtain k where k: "n = Suc k"
        by (cases n) auto
      with that l1 l2 l3 have "length s - length r1 \<le> k" and "length r2 - length r \<le> k"
        by simp_all
      from f1 [OF this(1)] f3 [OF this(2)] show ?thesis
        using k sk True res by simp
    qed
    with l1 l2 l3 show ?thesis by simp
  next
    case False
    with pe pv sk have res: "x = CHR '']''" "vs = [v]" "r = r2"
      by (auto split: if_splits)
    have "parse_elements n s = Some (vs, r)" if "length s - length r \<le> n" for n
    proof -
      from that l1 l2 res obtain k where k: "n = Suc k"
        by (cases n) auto
      with that l1 l2 res have "length s - length r1 \<le> k"
        by simp
      from f1 [OF this] show ?thesis
        using k sk res by simp
    qed
    with l1 l2 res show ?thesis by simp
  qed
qed

lemma parse_members_fuel_step:
  assumes IHv: "\<And>s v r. parse_value m s = Some (v, r) \<Longrightarrow>
                  length r < length s
                  \<and> (\<forall>n. length s - length r \<le> n \<longrightarrow> parse_value n s = Some (v, r))"
    and IHm: "\<And>s kvs r. parse_members m s = Some (kvs, r) \<Longrightarrow>
                  length r < length s
                  \<and> (\<forall>n. length s - length r \<le> n \<longrightarrow> parse_members n s = Some (kvs, r))"
    and pm: "parse_members (Suc m) s = Some (kvs, r)"
  shows "length r < length s
         \<and> (\<forall>n. length s - length r \<le> n \<longrightarrow> parse_members n s = Some (kvs, r))"
proof -
  from pm obtain q cs where sk0: "skip_ws s = q # cs"
    by (auto split: list.splits)
  have l0: "length cs < length s"
    by (rule skip_ws_ConsD [OF sk0])
  from pm sk0 have q: "q = CHR 0x22"
    by (auto split: if_splits)
  from pm sk0 q obtain k r1 where pc: "parse_chars cs = Some (k, r1)"
    by (auto split: option.splits)
  have lk: "length r1 < length cs"
    by (rule parse_chars_shorter [OF pc])
  from pm sk0 q pc obtain col r2 where skc: "skip_ws r1 = col # r2"
    by (auto split: list.splits)
  have lc: "length r2 < length r1"
    by (rule skip_ws_ConsD [OF skc])
  from pm sk0 q pc skc have col: "col = CHR '':''"
    by (auto split: if_splits)
  from pm sk0 q pc skc col obtain v r3 where pv: "parse_value m r2 = Some (v, r3)"
    by (auto split: option.splits)
  from IHv [OF pv] have l3: "length r3 < length r2"
    and f3: "\<And>n. length r2 - length r3 \<le> n \<Longrightarrow> parse_value n r2 = Some (v, r3)"
    by auto
  from pm sk0 q pc skc col pv obtain x r4 where sk4: "skip_ws r3 = x # r4"
    by (auto split: list.splits)
  have l4: "length r4 < length r3"
    by (rule skip_ws_ConsD [OF sk4])
  show ?thesis
  proof (cases "x = CHR '',''")
    case True
    with pm sk0 q pc skc col pv sk4 obtain kvs1 where
      pm1: "parse_members m r4 = Some (kvs1, r)" and res: "kvs = (k, v) # kvs1"
      by (auto split: option.splits)
    from IHm [OF pm1] have l5: "length r < length r4"
      and f5: "\<And>n. length r4 - length r \<le> n \<Longrightarrow> parse_members n r4 = Some (kvs1, r)"
      by auto
    have "parse_members n s = Some (kvs, r)" if "length s - length r \<le> n" for n
    proof -
      from that l0 lk lc l3 l4 l5 obtain j where j: "n = Suc j"
        by (cases n) auto
      with that l0 lk lc l3 l4 l5
      have "length r2 - length r3 \<le> j" and "length r4 - length r \<le> j"
        by simp_all
      from f3 [OF this(1)] f5 [OF this(2)] show ?thesis
        using j sk0 q pc skc col sk4 True res by simp
    qed
    with l0 lk lc l3 l4 l5 show ?thesis by simp
  next
    case False
    with pm sk0 q pc skc col pv sk4 have res: "x = CHR ''}''" "kvs = [(k, v)]" "r = r4"
      by (auto split: if_splits)
    have "parse_members n s = Some (kvs, r)" if "length s - length r \<le> n" for n
    proof -
      from that l0 lk lc l3 l4 res obtain j where j: "n = Suc j"
        by (cases n) auto
      with that l0 lk lc l3 l4 res have "length r2 - length r3 \<le> j"
        by simp
      from f3 [OF this] show ?thesis
        using j sk0 q pc skc col sk4 res by simp
    qed
    with l0 lk lc l3 l4 res show ?thesis by simp
  qed
qed

lemma parse_fuel:
  "(\<forall>s v r. parse_value m s = Some (v, r) \<longrightarrow>
      length r < length s
      \<and> (\<forall>n. length s - length r \<le> n \<longrightarrow> parse_value n s = Some (v, r)))
   \<and> (\<forall>s vs r. parse_elements m s = Some (vs, r) \<longrightarrow>
      length r < length s
      \<and> (\<forall>n. length s - length r \<le> n \<longrightarrow> parse_elements n s = Some (vs, r)))
   \<and> (\<forall>s kvs r. parse_members m s = Some (kvs, r) \<longrightarrow>
      length r < length s
      \<and> (\<forall>n. length s - length r \<le> n \<longrightarrow> parse_members n s = Some (kvs, r)))"
proof (induction m)
  case 0
  show ?case by simp
next
  case (Suc m)
  show ?case
    using Suc.IH parse_value_fuel_step [of m] parse_elements_fuel_step [of m]
      parse_members_fuel_step [of m]
    by (intro conjI allI impI) blast+
qed

lemma parse_value_enough_fuel:
  assumes "parse_value m s = Some (v, r)"
  shows "parse_value (Suc (length s)) s = Some (v, r)"
proof -
  from parse_fuel [of m] assms
  have "\<forall>n. length s - length r \<le> n \<longrightarrow> parse_value n s = Some (v, r)"
    by blast
  moreover have "length s - length r \<le> Suc (length s)"
    by simp
  ultimately show ?thesis by blast
qed

lemma JSON_parse_enough_fuel:
  assumes "parse_value m s = Some (v, r)" and "skip_ws r = []"
  shows "JSON_parse s = Inr v"
  unfolding JSON_parse_def parse_value_enough_fuel [OF assms(1)] using assms(2) by simp

section \<open>Writing a profile and reading it back\<close>

text \<open>
  What \<^verbatim>\<open>QuoteJSONString\<close> writes for a string, the reader reads as that string: every
  code unit is written either as itself or as an escape that the reader undoes.
\<close>

lemma hex_val_hex_digit: "n < 16 \<Longrightarrow> hex_val (hex_digit n) = Some n"
proof -
  assume "n < 16"
  then have "n \<in> {0,1,2,3,4,5,6,7,8,9,10,11,12,13,14,15}" by (simp, presburger)
  then show ?thesis
    by (auto simp: hex_val_def hex_digit_def)
qed

lemma hex4_control:
  assumes "(of_char c :: nat) < 32"
  shows "hex4 CHR ''0'' CHR ''0'' (hex_digit (of_char c div 16)) (hex_digit (of_char c mod 16))
           = Some (of_char c)"
proof -
  have a: "(of_char c :: nat) div 16 < 16" using assms by simp
  have b: "(of_char c :: nat) mod 16 < 16" by simp
  have z: "hex_val CHR ''0'' = Some 0" by (simp add: hex_val_def)
  show ?thesis
    by (simp add: hex4_def z hex_val_hex_digit [OF a] hex_val_hex_digit [OF b])
qed

lemma parse_chars_quote_char:
  "parse_chars (quote_char c @ t) =
     (case parse_chars t of None \<Rightarrow> None | Some (s, rest) \<Rightarrow> Some (c # s, rest))"
proof (cases "c = CHR 0x22 \<or> c = CHR 0x5C \<or> c = CHR 0x08 \<or> c = CHR 0x0C \<or> c = CHR 0x0A \<or> c = CHR 0x0D \<or> c = CHR 0x09")
  case True
  then show ?thesis
    by (auto simp: quote_char_def simple_escape_def)
next
  case False
  note plain = this
  show ?thesis
  proof (cases "(of_char c :: nat) < 32")
    case True
    then show ?thesis
      using plain by (simp add: quote_char_def hex4_control split: option.split)
  next
    case False
    then show ?thesis
      using plain by (simp add: quote_char_def)
  qed
qed

lemma parse_chars_quoted:
  "parse_chars (concat (map quote_char s) @ CHR 0x22 # rest) = Some (s, rest)"
  by (induction s) (simp_all add: parse_chars_quote_char)

lemma skip_ws_Cons: "\<not> is_ws c \<Longrightarrow> skip_ws (c # cs) = c # cs"
  by (simp add: skip_ws_def)

lemma parse_value_string:
  "parse_value (Suc n) (QuoteJSONString s @ rest) = Some (JString s, rest)"
  by (simp add: QuoteJSONString_def skip_ws_Cons is_ws_def parse_scalar_def parse_chars_quoted)


lemma parse_members_key:
  "parse_members (Suc n) (QuoteJSONString k @ CHR '':'' # r2)
     = (case parse_value n r2 of
           None \<Rightarrow> None
         | Some (v, r3) \<Rightarrow>
             (case skip_ws r3 of
                [] \<Rightarrow> None
              | x # r4 \<Rightarrow>
                  if x = CHR '','' then
                    (case parse_members n r4 of
                       None \<Rightarrow> None
                     | Some (kvs, r5) \<Rightarrow> Some ((k, v) # kvs, r5))
                  else if x = CHR ''}'' then Some ([(k, v)], r4)
                  else None))"
  by (simp add: QuoteJSONString_def skip_ws_Cons is_ws_def parse_chars_quoted)

lemma parse_members_last:
  "parse_members (Suc (Suc n)) (QuoteJSONString k @ CHR '':'' # QuoteJSONString s @ CHR ''}'' # rest)
     = Some ([(k, JString s)], rest)"
  by (simp only: parse_members_key parse_value_string) (simp add: skip_ws_Cons is_ws_def)

lemma parse_members_more:
  "parse_members (Suc (Suc n)) (QuoteJSONString k @ CHR '':'' # QuoteJSONString s @ CHR '','' # rest)
     = (case parse_members (Suc n) rest of
          None \<Rightarrow> None
        | Some (kvs, r) \<Rightarrow> Some ((k, JString s) # kvs, r))"
  by (simp only: parse_members_key parse_value_string) (simp add: skip_ws_Cons is_ws_def)

lemma parse_value_object:
  "parse_value (Suc n) (CHR ''{'' # QuoteJSONString k @ rest)
     = (case parse_members n (QuoteJSONString k @ rest) of
          None \<Rightarrow> None
        | Some (kvs, r) \<Rightarrow> Some (JObject (foldl (\<lambda>acc (k, v). set_member k v acc) [] kvs), r))"
  by (simp add: QuoteJSONString_def skip_ws_Cons is_ws_def)


lemma JSON_stringify_User_no_phone:
  "phone u = None \<Longrightarrow>
   JSON_stringify (json_of_User u) @ rest =
     CHR ''{'' # QuoteJSONString ''id'' @ CHR '':'' # QuoteJSONString (id' u) @ CHR '','' #
     (QuoteJSONString ''email'' @ CHR '':'' # QuoteJSONString (email u) @ CHR '','' #
     (QuoteJSONString ''fullName'' @ CHR '':'' # QuoteJSONString (fullName u) @ CHR ''}'' # rest))"
  by (simp add: json_of_User_def)

lemma JSON_stringify_User_phone:
  "phone u = Some p \<Longrightarrow>
   JSON_stringify (json_of_User u) @ rest =
     CHR ''{'' # QuoteJSONString ''id'' @ CHR '':'' # QuoteJSONString (id' u) @ CHR '','' #
     (QuoteJSONString ''email'' @ CHR '':'' # QuoteJSONString (email u) @ CHR '','' #
     (QuoteJSONString ''fullName'' @ CHR '':'' # QuoteJSONString (fullName u) @ CHR '','' #
     (QuoteJSONString ''phone'' @ CHR '':'' # QuoteJSONString p @ CHR ''}'' # rest)))"
  by (simp add: json_of_User_def)

lemma members_User_no_phone:
  "foldl (\<lambda>acc (k, v). set_member k v acc) []
     [(''id'', a), (''email'', b), (''fullName'', c)]
   = [(''id'', a), (''email'', b), (''fullName'', c)]"
  by (simp add: set_member_def)

lemma members_User_phone:
  "foldl (\<lambda>acc (k, v). set_member k v acc) []
     [(''id'', a), (''email'', b), (''fullName'', c), (''phone'', d)]
   = [(''id'', a), (''email'', b), (''fullName'', c), (''phone'', d)]"
  by (simp add: set_member_def)

lemma parse_value_User:
  "parse_value (Suc (Suc (Suc (Suc (Suc (Suc n)))))) (JSON_stringify (json_of_User u) @ rest)
     = Some (json_of_User u, rest)"
proof (cases "phone u")
  case None
  have "parse_value (Suc (Suc (Suc (Suc (Suc (Suc n)))))) (JSON_stringify (json_of_User u) @ rest)
          = Some (JObject [(''id'', JString (id' u)), (''email'', JString (email u)),
                           (''fullName'', JString (fullName u))], rest)"
    by (simp only: JSON_stringify_User_no_phone [OF None] parse_value_object parse_members_more
          parse_members_last option.case prod.case members_User_no_phone)
  then show ?thesis
    using None by (simp add: json_of_User_def)
next
  case (Some p)
  have "parse_value (Suc (Suc (Suc (Suc (Suc (Suc n)))))) (JSON_stringify (json_of_User u) @ rest)
          = Some (JObject [(''id'', JString (id' u)), (''email'', JString (email u)),
                           (''fullName'', JString (fullName u)), (''phone'', JString p)], rest)"
    by (simp only: JSON_stringify_User_phone [OF Some] parse_value_object parse_members_more
          parse_members_last option.case prod.case members_User_phone)
  then show ?thesis
    using Some by (simp add: json_of_User_def)
qed

lemma length_JSON_stringify_User: "5 \<le> length (JSON_stringify (json_of_User u))"
  by (cases "phone u") (simp_all add: json_of_User_def QuoteJSONString_def)

lemma JSON_parse_stringify_User:
  "JSON_parse (JSON_stringify (json_of_User u)) = Inr (json_of_User u)"
proof -
  obtain n where n: "length (JSON_stringify (json_of_User u)) = Suc (Suc (Suc (Suc (Suc n))))"
  proof -
    from length_JSON_stringify_User [of u]
    obtain m where "length (JSON_stringify (json_of_User u)) = 5 + m"
      using le_Suc_ex by blast
    then have "length (JSON_stringify (json_of_User u)) = Suc (Suc (Suc (Suc (Suc m))))"
      by simp
    then show ?thesis using that by blast
  qed
  have "parse_value (Suc (length (JSON_stringify (json_of_User u))))
          (JSON_stringify (json_of_User u) @ []) = Some (json_of_User u, [])"
    unfolding n by (rule parse_value_User)
  then show ?thesis
    by (simp add: JSON_parse_def skip_ws_def)
qed

lemma json_of_User_inj: "json_of_User u = json_of_User u' \<Longrightarrow> u = u'"
  by (cases u; cases u') (auto simp: json_of_User_def split: option.splits)

lemma JSON_stringify_User_nonempty: "JSON_stringify (json_of_User u) \<noteq> []"
  using length_JSON_stringify_User [of u] by auto

lemma getCurrentUser_ok:
  "storageFaults w = [] \<Longrightarrow> asyncStorage w ''user'' = Some (JSON_stringify (json_of_User u)) \<Longrightarrow>
     getCurrentUser w = (Inr (json_of_User u), w)"
  by (simp add: getCurrentUser_def getItem_ok JSON_stringify_User_nonempty JSON_parse_stringify_User)

lemma getCurrentUser_accepted:
  "accepts (Suc 0) w \<Longrightarrow> asyncStorage w ''user'' = Some (JSON_stringify (json_of_User u)) \<Longrightarrow>
     fst (getCurrentUser w) = Inr (json_of_User u)"
  by (simp add: getCurrentUser_def getItem_eq JSON_stringify_User_nonempty JSON_parse_stringify_User)

section \<open>Facts about the HTTP client\<close>

lemma is_401_StorageError: "\<not> is_401 StorageError"
  by (simp add: is_401_def error_response_def)

lemma is_401_ReferenceError: "\<not> is_401 ReferenceError"
  by (simp add: is_401_def error_response_def)

lemma request_interceptor_js_react_native:
  "host w = ReactNative \<Longrightarrow> request_interceptor_js config w = (Inl ReferenceError, w)"
  by (simp add: request_interceptor_js_def localStorage_getItem_def localStorage_def)

lemma request_interceptor_js_web:
  "host w = Web \<Longrightarrow>
     request_interceptor_js config w =
       (Inr (case asyncStorage w ''token'' of
               None \<Rightarrow> config
             | Some t \<Rightarrow>
                 if t = [] then config
                 else config\<lparr>headers := (headers config)(''Authorization'' \<mapsto> ''Bearer '' @ t)\<rparr>), w)"
  by (simp add: request_interceptor_js_def localStorage_getItem_def localStorage_def
        split: option.splits)

lemma request_interceptor_ts_accepted:
  "accepts (Suc 0) w \<Longrightarrow>
     request_interceptor_ts config w =
       (Inr (case asyncStorage w ''token'' of
               None \<Rightarrow> config
             | Some t \<Rightarrow>
                 if t = [] then config
                 else config\<lparr>headers := (headers config)(''Authorization'' \<mapsto> ''Bearer '' @ t)\<rparr>),
        w\<lparr>storageFaults := drop 1 (storageFaults w)\<rparr>)"
  by (simp add: request_interceptor_ts_def getItem_eq split: option.splits)

lemma request_interceptor_ts_rejected:
  "\<not> accepts (Suc 0) w \<Longrightarrow>
     request_interceptor_ts config w =
       (Inl StorageError, w\<lparr>storageFaults := drop 1 (storageFaults w)\<rparr>)"
  by (simp add: request_interceptor_ts_def getItem_eq)

lemma request_interceptor_frame:
  "request_interceptor v config w = (r, w1) \<Longrightarrow>
     asyncStorage w1 = asyncStorage w \<and> host w1 = host w
     \<and> location_href w1 = location_href w"
  by (cases v)
     (auto simp: request_interceptor_def request_interceptor_js_def request_interceptor_ts_def
        split: prod.splits sum.splits option.splits if_splits dest: getItem_frame)

lemma request_interceptor_bearer:
  assumes "request_interceptor v config w = (Inr c, w1)"
  shows "c = (case asyncStorage w ''token'' of
                None \<Rightarrow> config
              | Some t \<Rightarrow>
                  if t = [] then config
                  else config\<lparr>headers := (headers config)(''Authorization'' \<mapsto> ''Bearer '' @ t)\<rparr>)"
proof (cases v)
  case JS
  with assms show ?thesis
    by (auto simp: request_interceptor_def request_interceptor_js_def localStorage_getItem_def
          localStorage_def split: Host.splits sum.splits option.splits if_splits)
next
  case TS
  with assms show ?thesis
    by (auto simp: request_interceptor_def request_interceptor_ts_def
          split: prod.splits sum.splits option.splits if_splits dest: getItem_value)
qed

lemma request_interceptor_rejected:
  "request_interceptor v config w = (Inl e, w1) \<Longrightarrow> \<not> is_401 e"
  by (cases v)
     (auto simp: request_interceptor_def request_interceptor_js_def request_interceptor_ts_def
        localStorage_getItem_def getItem_eq is_401_StorageError is_401_ReferenceError
        split: prod.splits sum.splits option.splits if_splits)

lemma response_rejected_js_effect:
  "response_rejected_js e w = (e1, w1) \<Longrightarrow>
     asyncStorage w1 = (if is_401 e1 then (asyncStorage w)(''token'' := None) else asyncStorage w)
     \<and> host w1 = host w"
  by (auto simp: response_rejected_js_def localStorage_removeItem_def localStorage_def
        is_401_ReferenceError split: if_splits Host.splits)

lemma response_rejected_ts_effect:
  "response_rejected_ts e w = (e1, w1) \<Longrightarrow>
     asyncStorage w1 = (if is_401 e1 then (asyncStorage w)(''token'' := None) else asyncStorage w)
     \<and> host w1 = host w"
  by (auto simp: response_rejected_ts_def is_401_StorageError
        split: if_splits prod.splits sum.splits
        dest: removeItem_effect removeItem_rejected)

lemma response_rejected_effect:
  "response_rejected v e w = (e1, w1) \<Longrightarrow>
     asyncStorage w1 = (if is_401 e1 then (asyncStorage w)(''token'' := None) else asyncStorage w)
     \<and> host w1 = host w"
  by (cases v)
     (auto simp: response_rejected_def dest: response_rejected_js_effect response_rejected_ts_effect)

lemma response_rejected_not_401:
  "\<not> is_401 e \<Longrightarrow> response_rejected v e w = (e, w)"
  by (cases v)
     (simp_all add: response_rejected_def response_rejected_js_def response_rejected_ts_def)

lemma axios_request_fulfilled:
  "axios_request v adapter config w = (Inr r, w1) \<Longrightarrow>
     asyncStorage w1 = asyncStorage w \<and> localStorage w1 = localStorage w
     \<and> location_href w1 = location_href w \<and> host w1 = host w
     \<and> (\<exists>c. fst (request_interceptor v config w) = Inr c \<and> adapter c = Inr r)"
  by (auto simp: axios_request_def split: prod.splits sum.splits
        dest!: request_interceptor_frame intro: localStorage_frame)

lemma axios_request_rejected:
  "axios_request v adapter config w = (Inl e, w1) \<Longrightarrow>
     asyncStorage w1 = (if is_401 e then (asyncStorage w)(''token'' := None) else asyncStorage w)"
  by (auto simp: axios_request_def split: prod.splits sum.splits
        dest!: request_interceptor_frame response_rejected_effect)

lemma axios_request_keeps_absent:
  "axios_request v adapter config w = (r, w1) \<Longrightarrow> asyncStorage w k = None \<Longrightarrow>
     asyncStorage w1 k = None"
  by (cases r) (auto dest!: axios_request_rejected axios_request_fulfilled split: if_splits)

lemma logged_in_eq:
  "logged_in = initial_World\<lparr>asyncStorage :=
      [''token'' \<mapsto> ''T1'', ''user'' \<mapsto> JSON_stringify (json_of_User sample_User)]\<rparr>"
  by (simp add: logged_in_def login_def axios_post_def axios_request_def
        request_interceptor_def request_interceptor_ts_def getItem_ok
        setItem_ok login_ok_def initial_World_def)

section \<open>The request gateway\<close>

text \<open>
  C5. The specification has the request interceptor read the current token and send the
  request, with the header \<^verbatim>\<open>Authorization: Bearer <token>\<close> when a token is stored and
  unmodified when none is. On React Native the interceptor of \<^verbatim>\<open>natvived.js\<close> does
  neither: \<^verbatim>\<open>localStorage\<close> is not defined, reading it throws, and the request is
  rejected before it is sent, so that the first \<^verbatim>\<open>login\<close> already ends with status 500.
  The interceptor of \<^verbatim>\<open>native.en.ts\<close> on the same host sends the request unmodified
  while no token is stored and with the header once \<^verbatim>\<open>login\<close> has stored one.
\<close>

theorem request_interceptor_js_throws_on_react_native:
  "host initial_World = ReactNative
   \<and> request_interceptor_js products_request initial_World = (Inl ReferenceError, initial_World)
   \<and> login JS login_ok ''a@b.com'' ''x'' initial_World
       = (Inl (Inr \<lparr>status' = 500,
                     message' = ''Erreur lors de la configuration de la requ''
                                @ [CHR 0xC3, CHR 0xAA] @ ''te''\<rparr>), initial_World)
   \<and> request_interceptor_ts products_request initial_World = (Inr products_request, initial_World)
   \<and> asyncStorage logged_in ''token'' = Some ''T1''
   \<and> request_interceptor_ts products_request logged_in
       = (Inr (products_request\<lparr>headers :=
             (headers products_request)(''Authorization'' \<mapsto> ''Bearer T1'')\<rparr>), logged_in)"
  by (simp add: logged_in_eq login_def axios_post_def axios_request_def request_interceptor_def
        request_interceptor_js_def request_interceptor_ts_def localStorage_getItem_def
        localStorage_def response_rejected_def response_rejected_js_def is_401_def
        error_response_def error_request_def handleError_def getItem_ok initial_World_def
        products_request_def axiosInstance_def)

text \<open>
  C1, as amended. When a request that was sent is answered 401 and the removal of the token
  is not rejected by the storage layer (\<^verbatim>\<open>native.en.ts\<close> awaits
  \<^verbatim>\<open>AsyncStorage.removeItem\<close>; \<^verbatim>\<open>natvived.js\<close> removes synchronously): the caller
  gets the error that the request failed with, the token is no longer stored, every other
  entry of the store is as before, the cached user among them, and a later request that
  is sent is sent as it was built, without an \<^verbatim>\<open>Authorization\<close> header.
\<close>

theorem gateway_401_clears_token:
  assumes "request_interceptor v config w = (Inr c, wa)" and "adapter c = Inl e" and "is_401 e"
    and "v = JS \<or> accepts (Suc 0) wa"
  shows "\<exists>w1. axios_request v adapter config w = (Inl e, w1)
           \<and> asyncStorage w1 = (asyncStorage w)(''token'' := None)
           \<and> asyncStorage w1 ''user'' = asyncStorage w ''user''
           \<and> (\<forall>cfg c2 w2. request_interceptor v cfg w1 = (Inr c2, w2) \<longrightarrow> c2 = cfg)"
proof -
  from request_interceptor_frame [OF assms(1)]
  have fr: "asyncStorage wa = asyncStorage w" "host wa = host w"
    by simp_all
  have "\<exists>w1. response_rejected v e wa = (e, w1)
          \<and> asyncStorage w1 = (asyncStorage wa)(''token'' := None)"
  proof (cases v)
    case JS
    with assms(1) have "host wa = Web"
      using fr(2)
      by (cases "host w")
         (auto simp: request_interceptor_def request_interceptor_js_react_native)
    with JS assms(3) show ?thesis
      by (simp add: response_rejected_def response_rejected_js_def localStorage_removeItem_def
            localStorage_def)
  next
    case TS
    with assms(4) have "accepts (Suc 0) wa" by simp
    with TS assms(3) show ?thesis
      by (simp add: response_rejected_def response_rejected_ts_def removeItem_eq)
  qed
  then obtain w1 where rr: "response_rejected v e wa = (e, w1)"
    and st: "asyncStorage w1 = (asyncStorage wa)(''token'' := None)"
    by blast
  from assms(1,2) rr have run: "axios_request v adapter config w = (Inl e, w1)"
    by (simp add: axios_request_def)
  from st fr have st1: "asyncStorage w1 = (asyncStorage w)(''token'' := None)"
    by simp
  then have usr: "asyncStorage w1 ''user'' = asyncStorage w ''user''"
    by simp
  have nxt: "\<forall>cfg c2 w2. request_interceptor v cfg w1 = (Inr c2, w2) \<longrightarrow> c2 = cfg"
  proof (intro allI impI)
    fix cfg c2 w2
    assume "request_interceptor v cfg w1 = (Inr c2, w2)"
    from request_interceptor_bearer [OF this] st1 show "c2 = cfg"
      by simp
  qed
  from run st1 usr nxt show ?thesis by blast
qed

theorem gateway_401_clears_token_witness:
  "request_interceptor TS products_request logged_in
     = (Inr (products_request\<lparr>headers :=
           (headers products_request)(''Authorization'' \<mapsto> ''Bearer T1'')\<rparr>), logged_in)
   \<and> is_401 unauthorized
   \<and> accepts (Suc 0) logged_in
   \<and> fst (axios_request TS post_401 products_request logged_in) = Inl unauthorized
   \<and> asyncStorage (snd (axios_request TS post_401 products_request logged_in)) ''token'' = None
   \<and> asyncStorage (snd (axios_request TS post_401 products_request logged_in)) ''user''
       = Some (JSON_stringify (json_of_User sample_User))
   \<and> request_interceptor JS products_request (logged_in\<lparr>host := Web\<rparr>)
     = (Inr (products_request\<lparr>headers :=
           (headers products_request)(''Authorization'' \<mapsto> ''Bearer T1'')\<rparr>),
        logged_in\<lparr>host := Web\<rparr>)
   \<and> fst (axios_request JS post_401 products_request (logged_in\<lparr>host := Web\<rparr>))
       = Inl unauthorized
   \<and> asyncStorage (snd (axios_request JS post_401 products_request (logged_in\<lparr>host := Web\<rparr>)))
       ''token'' = None"
proof -
  let ?c = "products_request\<lparr>headers :=
           (headers products_request)(''Authorization'' \<mapsto> ''Bearer T1'')\<rparr>"
  have ri: "request_interceptor TS products_request logged_in = (Inr ?c, logged_in)"
    by (simp add: request_interceptor_def request_interceptor_ts_def getItem_ok logged_in_eq
          initial_World_def)
  have rj: "request_interceptor JS products_request (logged_in\<lparr>host := Web\<rparr>)
              = (Inr ?c, logged_in\<lparr>host := Web\<rparr>)"
    by (simp add: request_interceptor_def request_interceptor_js_web logged_in_eq
          initial_World_def)
  have ad: "post_401 ?c = Inl unauthorized"
    by (simp add: post_401_def)
  have u: "is_401 unauthorized"
    by (simp add: is_401_def error_response_def unauthorized_def)
  have acc: "accepts (Suc 0) logged_in"
    by (simp add: accepts_def logged_in_eq initial_World_def)
  have usr: "asyncStorage logged_in ''user'' = Some (JSON_stringify (json_of_User sample_User))"
    by (simp add: logged_in_eq initial_World_def)
  from gateway_401_clears_token [where v = TS and config = products_request and w = logged_in
      and c = "?c" and wa = logged_in and adapter = post_401 and e = unauthorized] ri ad u acc
  obtain w1 where a: "axios_request TS post_401 products_request logged_in = (Inl unauthorized, w1)"
    and b: "asyncStorage w1 = (asyncStorage logged_in)(''token'' := None)"
    by blast
  from gateway_401_clears_token [where v = JS and config = products_request
      and w = "logged_in\<lparr>host := Web\<rparr>" and c = "?c" and wa = "logged_in\<lparr>host := Web\<rparr>"
      and adapter = post_401 and e = unauthorized] rj ad u
  obtain w2 where c: "axios_request JS post_401 products_request (logged_in\<lparr>host := Web\<rparr>)
      = (Inl unauthorized, w2)"
    and d: "asyncStorage w2 = (asyncStorage (logged_in\<lparr>host := Web\<rparr>))(''token'' := None)"
    by blast
  from ri rj u acc a b c d usr show ?thesis
    by simp
qed

text \<open>
  C1 as it is written clears the token on every 401. In \<^verbatim>\<open>native.en.ts\<close> the response
  interceptor awaits the removal: when the storage layer rejects it, the token stays and
  the caller gets the rejection of the storage layer in place of the 401.
\<close>

theorem gateway_401_removal_rejected_counterexample:
  "asyncStorage (logged_in\<lparr>storageFaults := [False, True]\<rparr>) ''token'' = Some ''T1''
   \<and> fst (axios_request TS post_401 products_request (logged_in\<lparr>storageFaults := [False, True]\<rparr>))
       = Inl StorageError
   \<and> asyncStorage (snd (axios_request TS post_401 products_request
         (logged_in\<lparr>storageFaults := [False, True]\<rparr>))) ''token'' = Some ''T1''"
  by (simp add: logged_in_eq axios_request_def request_interceptor_def request_interceptor_ts_def
        response_rejected_def response_rejected_ts_def getItem_eq removeItem_eq accepts_def
        is_401_def error_response_def post_401_def unauthorized_def initial_World_def)

section \<open>Error normalization\<close>

text \<open>
  C6, as amended. For every failure other than a server response whose body is
  \<^verbatim>\<open>null\<close> or \<^verbatim>\<open>undefined\<close>, \<^verbatim>\<open>handleError\<close> returns one of three values. With a
  server response: the status of the response, and the message of its body when the body
  has one that is not the empty string, else \<^verbatim>\<open>'Une erreur est survenue'\<close>. With no
  response but a request that was sent: status 503. Otherwise, which includes every error
  that does not come from axios: status 500.
\<close>

theorem handleError_outcomes:
  "handleError (AxiosError (Some \<lparr>status = s, data = Some body\<rparr>) q) =
     Inr \<lparr>status' = s,
          message' = (case message body of
                        None \<Rightarrow> ''Une erreur est survenue''
                      | Some m \<Rightarrow> if m = [] then ''Une erreur est survenue'' else m)\<rparr>
   \<and> handleError (AxiosError None True) =
       Inr \<lparr>status' = 503, message' = ''Le serveur ne r'' @ [CHR 0xC3, CHR 0xA9] @ ''pond pas''\<rparr>
   \<and> handleError (AxiosError None False) =
       Inr \<lparr>status' = 500,
            message' = ''Erreur lors de la configuration de la requ'' @ [CHR 0xC3, CHR 0xAA] @ ''te''\<rparr>
   \<and> handleError StorageError = handleError (AxiosError None False)
   \<and> handleError SyntaxError = handleError (AxiosError None False)
   \<and> handleError ReferenceError = handleError (AxiosError None False)
   \<and> handleError TypeError = handleError (AxiosError None False)"
  by (simp add: handleError_def error_response_def error_request_def split: option.split)

text \<open>
  C6 as it is written takes the message of the body whenever the body has one. A body
  \<^verbatim>\<open>{ message: "" }\<close> has one, and \<^verbatim>\<open>handleError\<close> answers with the fallback:
  \<^verbatim>\<open>||\<close> takes its right operand for every falsy left operand.
\<close>

theorem handleError_empty_message_counterexample:
  "message \<lparr>message = Some []\<rparr> = Some []
   \<and> handleError (AxiosError (Some \<lparr>status = 400, data = Some \<lparr>message = Some []\<rparr>\<rparr>) True)
       = Inr \<lparr>status' = 400, message' = ''Une erreur est survenue''\<rparr>"
  by (simp add: handleError_def error_response_def)

text \<open>
  The failure that the amended C6 leaves out: a response whose body is \<^verbatim>\<open>null\<close> or
  \<^verbatim>\<open>undefined\<close>. \<^verbatim>\<open>handleError\<close> reads \<^verbatim>\<open>message\<close> of it and throws.
\<close>

lemma handleError_without_body:
  "handleError (AxiosError (Some \<lparr>status = s, data = None\<rparr>) q) = Inl TypeError"
  by (simp add: handleError_def error_response_def)


section \<open>Login\<close>

text \<open>
  C2. Let the request of \<^verbatim>\<open>login\<close> be fulfilled with a body that holds a non-empty token.
  Then the call succeeds exactly when the storage layer accepts its two writes: it throws
  the normalized storage error otherwise. When it succeeds it returns the body, and the
  store is the one before the call with the token and the serialized user of the body
  written over it; \<^verbatim>\<open>isAuthenticated\<close> then answers true and \<^verbatim>\<open>getCurrentUser\<close>
  returns the user of the body, each when its read is accepted.
\<close>

theorem login_success:
  assumes "axios_post v adapter ''/auth/login''
             (Some (JObject [(''email'', JString mail), (''password'', JString password)])) w
           = (Inr response, w1)"
    and "token (data response) = Some t" and "t \<noteq> []"
  shows "(accepts 2 w1 \<longrightarrow>
            (\<exists>w2. login v adapter mail password w = (Inr (data response), w2)
               \<and> asyncStorage w2 =
                   (asyncStorage w)(''token'' \<mapsto> t,
                      ''user'' \<mapsto> JSON_stringify (json_of_User (user (data response))))
               \<and> (accepts (Suc 0) w2 \<longrightarrow>
                    fst (isAuthenticated w2) = Inr True
                    \<and> fst (getCurrentUser w2) = Inr (json_of_User (user (data response))))))
         \<and> (\<not> accepts 2 w1 \<longrightarrow> fst (login v adapter mail password w) = Inl (handleError StorageError))"
proof -
  let ?u = "JSON_stringify (json_of_User (user (data response)))"
  let ?wa = "w1\<lparr>storageFaults := drop 1 (storageFaults w1)\<rparr>"
  from assms(1) have fr: "asyncStorage w1 = asyncStorage w"
    unfolding axios_post_def by (auto dest: axios_request_fulfilled)
  have two: "accepts 2 w1 \<longleftrightarrow> accepts (Suc 0) w1 \<and> accepts (Suc 0) ?wa"
    using accepts_Suc [of "Suc 0" w1] by (simp add: numeral_2_eq_2)
  have good: "accepts 2 w1 \<longrightarrow>
            (\<exists>w2. login v adapter mail password w = (Inr (data response), w2)
               \<and> asyncStorage w2 = (asyncStorage w)(''token'' \<mapsto> t, ''user'' \<mapsto> ?u)
               \<and> (accepts (Suc 0) w2 \<longrightarrow>
                    fst (isAuthenticated w2) = Inr True
                    \<and> fst (getCurrentUser w2) = Inr (json_of_User (user (data response)))))"
  proof
    assume "accepts 2 w1"
    with two have a1: "accepts (Suc 0) w1" and a2: "accepts (Suc 0) ?wa"
      by simp_all
    let ?w2 = "w1\<lparr>asyncStorage := (asyncStorage w1)(''token'' \<mapsto> t, ''user'' \<mapsto> ?u),
                   storageFaults := drop 1 (drop 1 (storageFaults w1))\<rparr>"
    from a2 have a2': "accepts (Suc 0)
        (w1\<lparr>asyncStorage := (asyncStorage w1)(''token'' \<mapsto> t),
             storageFaults := drop 1 (storageFaults w1)\<rparr>)"
      by (simp add: accepts_def)
    from assms a1 a2' have run: "login v adapter mail password w = (Inr (data response), ?w2)"
      by (simp add: login_def setItem_eq)
    have st: "asyncStorage ?w2 = (asyncStorage w)(''token'' \<mapsto> t, ''user'' \<mapsto> ?u)"
      using fr by simp
    have q: "accepts (Suc 0) ?w2 \<longrightarrow>
               fst (isAuthenticated ?w2) = Inr True
               \<and> fst (getCurrentUser ?w2) = Inr (json_of_User (user (data response)))"
      using assms(3) by (simp add: isAuthenticated_eq getCurrentUser_accepted truthy_def)
    from run st q show "\<exists>w2. login v adapter mail password w = (Inr (data response), w2)
               \<and> asyncStorage w2 = (asyncStorage w)(''token'' \<mapsto> t, ''user'' \<mapsto> ?u)
               \<and> (accepts (Suc 0) w2 \<longrightarrow>
                    fst (isAuthenticated w2) = Inr True
                    \<and> fst (getCurrentUser w2) = Inr (json_of_User (user (data response))))"
      by blast
  qed
  have bad: "\<not> accepts 2 w1 \<longrightarrow> fst (login v adapter mail password w) = Inl (handleError StorageError)"
  proof
    assume "\<not> accepts 2 w1"
    with two have "\<not> accepts (Suc 0) w1 \<or> (accepts (Suc 0) w1 \<and> \<not> accepts (Suc 0) ?wa)"
      by blast
    then show "fst (login v adapter mail password w) = Inl (handleError StorageError)"
    proof
      assume "\<not> accepts (Suc 0) w1"
      with assms show ?thesis
        by (simp add: login_def setItem_eq)
    next
      assume b: "accepts (Suc 0) w1 \<and> \<not> accepts (Suc 0) ?wa"
      then have "\<not> accepts (Suc 0)
        (w1\<lparr>asyncStorage := (asyncStorage w1)(''token'' \<mapsto> t),
             storageFaults := drop 1 (storageFaults w1)\<rparr>)"
        by (simp add: accepts_def)
      with assms b show ?thesis
        by (simp add: login_def setItem_eq)
    qed
  qed
  from good bad show ?thesis by blast
qed

theorem login_success_witness:
  "axios_post TS login_ok ''/auth/login''
       (Some (JObject [(''email'', JString ''a@b.com''), (''password'', JString ''x'')]))
       (initial_World\<lparr>asyncStorage := [''token'' \<mapsto> ''T0'', ''cart'' \<mapsto> ''[]'']\<rparr>)
     = (Inr \<lparr>status = 200, data = \<lparr>token = Some ''T1'', user = sample_User\<rparr>\<rparr>,
        initial_World\<lparr>asyncStorage := [''token'' \<mapsto> ''T0'', ''cart'' \<mapsto> ''[]'']\<rparr>)
   \<and> accepts 2 (initial_World\<lparr>asyncStorage := [''token'' \<mapsto> ''T0'', ''cart'' \<mapsto> ''[]'']\<rparr>)
   \<and> fst (login TS login_ok ''a@b.com'' ''x''
         (initial_World\<lparr>asyncStorage := [''token'' \<mapsto> ''T0'', ''cart'' \<mapsto> ''[]'']\<rparr>))
       = Inr \<lparr>token = Some ''T1'', user = sample_User\<rparr>
   \<and> asyncStorage (snd (login TS login_ok ''a@b.com'' ''x''
         (initial_World\<lparr>asyncStorage := [''token'' \<mapsto> ''T0'', ''cart'' \<mapsto> ''[]'']\<rparr>)))
       = [''token'' \<mapsto> ''T1'', ''cart'' \<mapsto> ''[]'',
          ''user'' \<mapsto> JSON_stringify (json_of_User sample_User)]
   \<and> fst (isAuthenticated (snd (login TS login_ok ''a@b.com'' ''x''
         (initial_World\<lparr>asyncStorage := [''token'' \<mapsto> ''T0'', ''cart'' \<mapsto> ''[]'']\<rparr>))))
       = Inr True
   \<and> fst (getCurrentUser (snd (login TS login_ok ''a@b.com'' ''x''
         (initial_World\<lparr>asyncStorage := [''token'' \<mapsto> ''T0'', ''cart'' \<mapsto> ''[]'']\<rparr>))))
       = Inr (json_of_User sample_User)"
proof -
  let ?w = "initial_World\<lparr>asyncStorage := [''token'' \<mapsto> ''T0'', ''cart'' \<mapsto> ''[]'']\<rparr>"
  let ?r = "\<lparr>status = 200, data = \<lparr>token = Some ''T1'', user = sample_User\<rparr>\<rparr>"
  have run: "axios_post TS login_ok ''/auth/login''
       (Some (JObject [(''email'', JString ''a@b.com''), (''password'', JString ''x'')])) ?w
     = (Inr ?r, ?w)"
    by (simp add: axios_post_def axios_request_def request_interceptor_def
          request_interceptor_ts_def getItem_ok login_ok_def initial_World_def)
  have acc: "accepts 2 ?w"
    by (simp add: accepts_def initial_World_def)
  have tk: "token (data ?r) = Some ''T1''" and ne: "''T1'' \<noteq> []"
    by simp_all
  from login_success [OF run tk ne] acc
  obtain w2 where l: "login TS login_ok ''a@b.com'' ''x'' ?w = (Inr (data ?r), w2)"
    and st: "asyncStorage w2 = (asyncStorage ?w)(''token'' \<mapsto> ''T1'',
                ''user'' \<mapsto> JSON_stringify (json_of_User (user (data ?r))))"
    and q: "accepts (Suc 0) w2 \<longrightarrow>
              fst (isAuthenticated w2) = Inr True
              \<and> fst (getCurrentUser w2) = Inr (json_of_User (user (data ?r)))"
    by blast
  have "storageFaults (snd (login TS login_ok ''a@b.com'' ''x'' ?w)) = []"
    by (simp add: login_def axios_post_def axios_request_def request_interceptor_def
          request_interceptor_ts_def getItem_ok setItem_ok login_ok_def initial_World_def)
  with l have "storageFaults w2 = []"
    by simp
  then have "accepts (Suc 0) w2"
    by (rule accepts_none)
  with q have q': "fst (isAuthenticated w2) = Inr True"
    "fst (getCurrentUser w2) = Inr (json_of_User (user (data ?r)))"
    by simp_all
  have m: "(asyncStorage ?w)(''token'' \<mapsto> ''T1'',
                ''user'' \<mapsto> JSON_stringify (json_of_User sample_User))
           = [''token'' \<mapsto> ''T1'', ''cart'' \<mapsto> ''[]'',
              ''user'' \<mapsto> JSON_stringify (json_of_User sample_User)]"
    by (auto simp: initial_World_def fun_eq_iff)
  from run acc l st q' m show ?thesis
    by simp
qed







section \<open>Registration\<close>

text \<open>
  C9. A call of \<^verbatim>\<open>register\<close> that succeeds leaves the session as it was (the stored
  token and the stored user, and \<^verbatim>\<open>localStorage\<close> too), and what it returns is the body
  of the response that the server gave.
\<close>

theorem register_does_not_touch_session:
  assumes "register v adapter userData w = (Inr body, w1)"
  shows "asyncStorage w1 = asyncStorage w \<and> localStorage w1 = localStorage w
         \<and> (\<exists>c r. adapter c = Inr r \<and> body = data r)"
proof -
  from assms obtain r where
    "axios_request v adapter
        (axiosInstance\<lparr>url := ''/auth/register'', method' := ''post'', data' := Some userData\<rparr>) w
       = (Inr r, w1)" and "body = data r"
    by (auto simp: register_def axios_post_def split: prod.splits sum.splits)
  then show ?thesis
    using axios_request_fulfilled by blast
qed

theorem register_does_not_touch_session_witness:
  "register TS login_ok (JObject [(''email'', JString ''a@b.com'')])
       (initial_World\<lparr>asyncStorage := [''token'' \<mapsto> ''T0'']\<rparr>)
     = (Inr \<lparr>token = Some ''T1'', user = sample_User\<rparr>,
        initial_World\<lparr>asyncStorage := [''token'' \<mapsto> ''T0'']\<rparr>)
   \<and> asyncStorage (initial_World\<lparr>asyncStorage := [''token'' \<mapsto> ''T0'']\<rparr>) ''token'' = Some ''T0''"
proof -
  have run: "register TS login_ok (JObject [(''email'', JString ''a@b.com'')])
       (initial_World\<lparr>asyncStorage := [''token'' \<mapsto> ''T0'']\<rparr>)
     = (Inr \<lparr>token = Some ''T1'', user = sample_User\<rparr>,
        initial_World\<lparr>asyncStorage := [''token'' \<mapsto> ''T0'']\<rparr>)"
    by (simp add: register_def axios_post_def axios_request_def request_interceptor_def
          request_interceptor_ts_def getItem_ok initial_World_def login_ok_def)
  from register_does_not_touch_session [OF run] run show ?thesis
    by (simp add: initial_World_def)
qed


section \<open>Logout\<close>

text \<open>
  C3, as amended. When the storage layer accepts the two removals of \<^verbatim>\<open>logout\<close>, then
  whatever the network does: the request is made from a store that holds neither token
  nor user, every failure of that request reaches the caller as what
  \<^verbatim>\<open>throw handleError(error)\<close> throws, and afterwards token and user are absent, so that
  \<^verbatim>\<open>isAuthenticated\<close> never answers true and answers false when its read is accepted.
\<close>

theorem logout_clears_session:
  assumes "accepts 2 w"
  shows "logout v adapter w =
           (case axios_post v adapter ''/auth/logout'' None
                   (w\<lparr>asyncStorage := (asyncStorage w)(''token'' := None, ''user'' := None),
                      storageFaults := drop 2 (storageFaults w)\<rparr>) of
              (Inl e, w3) \<Rightarrow> (Inl (handleError e), w3)
            | (Inr r, w3) \<Rightarrow> (Inr (), w3))
         \<and> asyncStorage (snd (logout v adapter w)) ''token'' = None
         \<and> asyncStorage (snd (logout v adapter w)) ''user'' = None
         \<and> fst (isAuthenticated (snd (logout v adapter w))) \<noteq> Inr True
         \<and> (accepts (Suc 0) (snd (logout v adapter w)) \<longrightarrow>
              fst (isAuthenticated (snd (logout v adapter w))) = Inr False)"
proof -
  let ?wa = "w\<lparr>storageFaults := drop 1 (storageFaults w)\<rparr>"
  let ?w2 = "w\<lparr>asyncStorage := (asyncStorage w)(''token'' := None, ''user'' := None),
                storageFaults := drop 2 (storageFaults w)\<rparr>"
  from assms have a1: "accepts (Suc 0) w" and a2: "accepts (Suc 0) ?wa"
    using accepts_Suc [of "Suc 0" w] by (simp_all add: numeral_2_eq_2)
  from a2 have a2': "accepts (Suc 0)
      (w\<lparr>asyncStorage := (asyncStorage w)(''token'' := None),
          storageFaults := drop 1 (storageFaults w)\<rparr>)"
    by (simp add: accepts_def)
  from a1 a2' have start: "logout v adapter w =
      (case axios_post v adapter ''/auth/logout'' None ?w2 of
         (Inl e, w3) \<Rightarrow> (Inl (handleError e), w3)
       | (Inr r, w3) \<Rightarrow> (Inr (), w3))"
    by (simp add: logout_def removeItem_eq numeral_2_eq_2)
  obtain r w3 where post: "axios_post v adapter ''/auth/logout'' None ?w2 = (r, w3)"
    by (cases "axios_post v adapter ''/auth/logout'' None ?w2")
  with start have fin: "snd (logout v adapter w) = w3"
    by (cases r) simp_all
  from post have c: "asyncStorage w3 ''token'' = None" "asyncStorage w3 ''user'' = None"
    unfolding axios_post_def
    by (auto dest: axios_request_keeps_absent [where k = "''token''"]
          axios_request_keeps_absent [where k = "''user''"])
  from c(1) have n: "fst (isAuthenticated w3) \<noteq> Inr True"
    by (simp add: isAuthenticated_not_true truthy_def)
  from c(1) have f: "accepts (Suc 0) w3 \<longrightarrow> fst (isAuthenticated w3) = Inr False"
    by (simp add: isAuthenticated_eq truthy_def)
  from start fin c n f show ?thesis
    by simp
qed

theorem logout_clears_session_witness:
  "accepts 2 (logged_in\<lparr>storageFaults := [False, False, True]\<rparr>)
   \<and> asyncStorage (logged_in\<lparr>storageFaults := [False, False, True]\<rparr>) ''token'' = Some ''T1''
   \<and> fst (logout TS no_answer (logged_in\<lparr>storageFaults := [False, False, True]\<rparr>))
       = Inl (Inr \<lparr>status' = 500,
                    message' = ''Erreur lors de la configuration de la requ''
                               @ [CHR 0xC3, CHR 0xAA] @ ''te''\<rparr>)
   \<and> asyncStorage (snd (logout TS no_answer (logged_in\<lparr>storageFaults := [False, False, True]\<rparr>)))
       ''token'' = None
   \<and> asyncStorage (snd (logout TS no_answer (logged_in\<lparr>storageFaults := [False, False, True]\<rparr>)))
       ''user'' = None
   \<and> fst (isAuthenticated (snd (logout TS no_answer
         (logged_in\<lparr>storageFaults := [False, False, True]\<rparr>)))) = Inr False
   \<and> accepts 2 logged_in
   \<and> fst (logout TS no_answer logged_in)
       = Inl (Inr \<lparr>status' = 503,
                    message' = ''Le serveur ne r'' @ [CHR 0xC3, CHR 0xA9] @ ''pond pas''\<rparr>)
   \<and> asyncStorage (snd (logout TS no_answer logged_in)) ''token'' = None
   \<and> fst (isAuthenticated (snd (logout TS no_answer logged_in))) = Inr False"
proof -
  let ?w = "logged_in\<lparr>storageFaults := [False, False, True]\<rparr>"
  have acc: "accepts 2 ?w" and acc0: "accepts 2 logged_in"
    by (simp_all add: accepts_def logged_in_eq initial_World_def)
  have tk: "asyncStorage ?w ''token'' = Some ''T1''"
    by (simp add: logged_in_eq initial_World_def)
  have r1: "logout TS no_answer ?w
      = (Inl (Inr \<lparr>status' = 500,
                    message' = ''Erreur lors de la configuration de la requ''
                               @ [CHR 0xC3, CHR 0xAA] @ ''te''\<rparr>),
         logged_in\<lparr>asyncStorage := Map.empty, storageFaults := []\<rparr>)"
    by (subst logout_clears_session [OF acc, of TS no_answer, THEN conjunct1])
       (simp add: axios_post_def axios_request_def request_interceptor_def request_interceptor_ts_def
          response_rejected_def response_rejected_ts_def getItem_eq accepts_def is_401_def
          error_response_def error_request_def handleError_def no_answer_def logged_in_eq
          initial_World_def)
  have r2: "fst (logout TS no_answer logged_in)
      = Inl (Inr \<lparr>status' = 503,
                   message' = ''Le serveur ne r'' @ [CHR 0xC3, CHR 0xA9] @ ''pond pas''\<rparr>)"
    by (subst logout_clears_session [OF acc0, of TS no_answer, THEN conjunct1])
       (simp add: axios_post_def axios_request_def request_interceptor_def request_interceptor_ts_def
          response_rejected_def response_rejected_ts_def getItem_eq accepts_def is_401_def
          error_response_def error_request_def handleError_def no_answer_def logged_in_eq
          initial_World_def)
  have a1: "accepts (Suc 0) (snd (logout TS no_answer ?w))"
    by (simp add: r1 accepts_def)
  have a2: "accepts (Suc 0) (snd (logout TS no_answer logged_in))"
    by (subst logout_clears_session [OF acc0, of TS no_answer, THEN conjunct1])
       (simp add: axios_post_def axios_request_def request_interceptor_def request_interceptor_ts_def
          response_rejected_def response_rejected_ts_def getItem_eq accepts_def is_401_def
          error_response_def no_answer_def logged_in_eq initial_World_def)
  from logout_clears_session [OF acc, of TS no_answer]
  have t1: "asyncStorage (snd (logout TS no_answer ?w)) ''token'' = None"
    and u1: "asyncStorage (snd (logout TS no_answer ?w)) ''user'' = None"
    and i1: "accepts (Suc 0) (snd (logout TS no_answer ?w)) \<longrightarrow>
               fst (isAuthenticated (snd (logout TS no_answer ?w))) = Inr False"
    by blast+
  from logout_clears_session [OF acc0, of TS no_answer]
  have t2: "asyncStorage (snd (logout TS no_answer logged_in)) ''token'' = None"
    and i2: "accepts (Suc 0) (snd (logout TS no_answer logged_in)) \<longrightarrow>
               fst (isAuthenticated (snd (logout TS no_answer logged_in))) = Inr False"
    by blast+
  from r1 have r1f: "fst (logout TS no_answer ?w)
       = Inl (Inr \<lparr>status' = 500,
                    message' = ''Erreur lors de la configuration de la requ''
                               @ [CHR 0xC3, CHR 0xAA] @ ''te''\<rparr>)"
    by simp
  from i1 a1 have j1: "fst (isAuthenticated (snd (logout TS no_answer ?w))) = Inr False"
    by blast
  from i2 a2 have j2: "fst (isAuthenticated (snd (logout TS no_answer logged_in))) = Inr False"
    by blast
  from acc tk r1f t1 u1 j1 acc0 r2 t2 j2 show ?thesis
    by blast
qed

text \<open>
  C3 as it is written clears the session on every logout. When the storage layer rejects
  the first removal, \<^verbatim>\<open>logout\<close> throws at once: the token is still stored and
  \<^verbatim>\<open>isAuthenticated\<close> answers true.
\<close>

theorem logout_removal_rejected_counterexample:
  "fst (logout TS no_answer (logged_in\<lparr>storageFaults := [True]\<rparr>))
       = Inl (Inr \<lparr>status' = 500,
                    message' = ''Erreur lors de la configuration de la requ''
                               @ [CHR 0xC3, CHR 0xAA] @ ''te''\<rparr>)
   \<and> asyncStorage (snd (logout TS no_answer (logged_in\<lparr>storageFaults := [True]\<rparr>))) ''token''
       = Some ''T1''
   \<and> fst (isAuthenticated (snd (logout TS no_answer (logged_in\<lparr>storageFaults := [True]\<rparr>))))
       = Inr True"
  by (simp add: logout_def removeItem_eq accepts_def handleError_def error_response_def
        error_request_def isAuthenticated_eq truthy_def logged_in_eq initial_World_def)


section \<open>The cached user\<close>

text \<open>
  C7. \<^verbatim>\<open>getCurrentUser\<close> never throws: it always returns a value. When the read of the
  store is rejected it returns \<^verbatim>\<open>null\<close>, and when the stored text does not parse it
  returns \<^verbatim>\<open>null\<close>.
\<close>

theorem getCurrentUser_never_throws:
  "(\<exists>j. fst (getCurrentUser w) = Inr j)
   \<and> (\<forall>e. fst (AsyncStorage_getItem ''user'' w) = Inl e \<longrightarrow> fst (getCurrentUser w) = Inr JNull)
   \<and> (\<forall>s e. fst (AsyncStorage_getItem ''user'' w) = Inr (Some s) \<and> JSON_parse s = Inl e
         \<longrightarrow> fst (getCurrentUser w) = Inr JNull)"
  by (auto simp: getCurrentUser_def split: prod.splits sum.splits option.splits)

theorem getCurrentUser_never_throws_witness:
  "fst (AsyncStorage_getItem ''user'' (initial_World\<lparr>storageFaults := [True]\<rparr>)) = Inl StorageError
   \<and> fst (getCurrentUser (initial_World\<lparr>storageFaults := [True]\<rparr>)) = Inr JNull
   \<and> fst (AsyncStorage_getItem ''user'' (initial_World\<lparr>asyncStorage := [''user'' \<mapsto> ''{oops'']\<rparr>))
       = Inr (Some ''{oops'')
   \<and> JSON_parse ''{oops'' = Inl SyntaxError
   \<and> fst (getCurrentUser (initial_World\<lparr>asyncStorage := [''user'' \<mapsto> ''{oops'']\<rparr>)) = Inr JNull"
proof -
  have r: "fst (AsyncStorage_getItem ''user'' (initial_World\<lparr>storageFaults := [True]\<rparr>)) = Inl StorageError"
    by (simp add: AsyncStorage_getItem_def next_fault_def initial_World_def)
  have g: "fst (AsyncStorage_getItem ''user'' (initial_World\<lparr>asyncStorage := [''user'' \<mapsto> ''{oops'']\<rparr>))
             = Inr (Some ''{oops'')"
    by (simp add: AsyncStorage_getItem_def next_fault_def initial_World_def)
  have p: "JSON_parse ''{oops'' = Inl SyntaxError"
    by (simp add: JSON_parse_def skip_ws_def is_ws_def parse_scalar_def)
  from getCurrentUser_never_throws [of "initial_World\<lparr>storageFaults := [True]\<rparr>"] r
  have a: "fst (getCurrentUser (initial_World\<lparr>storageFaults := [True]\<rparr>)) = Inr JNull"
    by blast
  from getCurrentUser_never_throws [of "initial_World\<lparr>asyncStorage := [''user'' \<mapsto> ''{oops'']\<rparr>"] g p
  have b: "fst (getCurrentUser (initial_World\<lparr>asyncStorage := [''user'' \<mapsto> ''{oops'']\<rparr>)) = Inr JNull"
    by blast
  from r g p a b show ?thesis by simp
qed

text \<open>
  C8. Storing the serialization of a profile under \<^verbatim>\<open>user\<close> and reading it with
  \<^verbatim>\<open>getCurrentUser\<close> returns the object of that profile, with or without a phone, and
  that object belongs to no other profile: all four fields are preserved.
\<close>

theorem profile_round_trip:
  assumes "storageFaults w = []"
  shows "fst (getCurrentUser (snd (AsyncStorage_setItem ''user'' (JSON_stringify (json_of_User u)) w)))
           = Inr (json_of_User u)
         \<and> (\<forall>u'. json_of_User u' = json_of_User u \<longrightarrow> u' = u)"
  using assms by (auto simp: setItem_ok getCurrentUser_ok dest: json_of_User_inj)

theorem profile_round_trip_witness:
  "storageFaults initial_World = []
   \<and> fst (getCurrentUser (snd (AsyncStorage_setItem ''user''
        (JSON_stringify (json_of_User (sample_User\<lparr>phone := Some ''+33 1''\<rparr>))) initial_World)))
       = Inr (JObject [(''id'', JString ''1''), (''email'', JString ''a@b.com''),
                       (''fullName'', JString ''A''), (''phone'', JString ''+33 1'')])"
proof -
  have nf: "storageFaults initial_World = []"
    by (simp add: initial_World_def)
  from profile_round_trip [OF nf, of "sample_User\<lparr>phone := Some ''+33 1''\<rparr>"] nf
  show ?thesis
    by (simp add: json_of_User_def sample_User_def)
qed

end

